theory Spec2Isabelle
  imports Complex_Main
begin

section \<open>Input data of the graph component\<close>

text \<open>
  \<^verbatim>\<open>GraphVisualization.tsx\<close> receives \<^verbatim>\<open>nodes: GraphNode[]\<close> and
  \<^verbatim>\<open>edges: GraphEdge[]\<close>. The interfaces declare \<^verbatim>\<open>data.id\<close>,
  \<^verbatim>\<open>data.label\<close>, \<^verbatim>\<open>data.type\<close> for a node and \<^verbatim>\<open>data.source\<close>,
  \<^verbatim>\<open>data.target\<close>, \<^verbatim>\<open>data.relationship\<close> for an edge, each a string. The
  declaration is erased at run time, where a field can be absent: \<open>ntype = None\<close> is a
  node whose \<^verbatim>\<open>type\<close> is \<^verbatim>\<open>undefined\<close>. An edge has no declared id; the
  index signature lets the data carry one (\<open>eid\<close>). A string of the model is a
  list of 8-bit characters; it stands for the string of the program with the same
  characters when all of them are ASCII (\<open>ascii\<close>), and for no string of the program
  otherwise.
\<close>

record GraphNode =
  nid :: string
  nlabel :: string
  ntype :: "string option"

record GraphEdge =
  eid :: "string option"
  source :: string
  target :: string
  relationship :: string

record Props =
  nodes :: "GraphNode list"
  edges :: "GraphEdge list"
  onNodeClick :: bool
  interactive :: bool


text \<open>
  What the program throws: \<open>TypeError\<close> for a property read on
  \<^verbatim>\<open>undefined\<close> or \<^verbatim>\<open>null\<close>, in this code or inside the library, and
  \<open>CytoscapeError\<close> for the \<^verbatim>\<open>Error\<close> the library's constructor throws when
  it cannot create an element.
\<close>

datatype error = TypeError | CytoscapeError

section \<open>The element mapping (lines 56-64)\<close>

text \<open>
  \<^verbatim>\<open>String.prototype.toLowerCase\<close> on ASCII strings: each of the letters A-Z moves
  to its lower-case letter, every other ASCII character stays. The program also
  lower-cases letters outside ASCII; the model says nothing of them, and what is claimed
  below of a lower-cased type is claimed of types that are \<open>ascii\<close>.
\<close>

definition lower_char :: "char \<Rightarrow> char" where
  "lower_char c =
     (case map_of (zip ''ABCDEFGHIJKLMNOPQRSTUVWXYZ'' ''abcdefghijklmnopqrstuvwxyz'') c of
        Some d \<Rightarrow> d
      | None \<Rightarrow> c)"

definition toLowerCase :: "string \<Rightarrow> string" where
  "toLowerCase s = map lower_char s"

text \<open>
  One entry of \<^verbatim>\<open>elements.nodes\<close>: \<^verbatim>\<open>{ data: n.data, classes: n.data.type.toLowerCase() }\<close>.
  Calling \<^verbatim>\<open>toLowerCase\<close> on \<^verbatim>\<open>undefined\<close> throws a TypeError.
\<close>

record NodeJson =
  jdata :: GraphNode
  jclasses :: string

definition node_json :: "GraphNode \<Rightarrow> error + NodeJson" where
  "node_json n =
     (case ntype n of
        None \<Rightarrow> Inl TypeError
      | Some t \<Rightarrow> Inr \<lparr>jdata = n, jclasses = toLowerCase t\<rparr>)"

text \<open>
  \<^verbatim>\<open>nodes.map(...)\<close>: the callback runs on the nodes in order; the first exception
  leaves \<^verbatim>\<open>map\<close> and no array is produced.
\<close>

fun map_nodes :: "GraphNode list \<Rightarrow> error + NodeJson list" where
  "map_nodes [] = Inr []"
| "map_nodes (n # ns) =
     (case node_json n of
        Inl e \<Rightarrow> Inl e
      | Inr j \<Rightarrow> (case map_nodes ns of Inl e \<Rightarrow> Inl e | Inr js \<Rightarrow> Inr (j # js)))"

text \<open>\<^verbatim>\<open>edges.map(e => ({ data: e.data }))\<close> copies each edge's data and reads no field of it.\<close>

definition map_edges :: "GraphEdge list \<Rightarrow> GraphEdge list" where
  "map_edges es = map (\<lambda>e. e) es"

definition elements_json :: "GraphNode list \<Rightarrow> GraphEdge list \<Rightarrow> error + (NodeJson list \<times> GraphEdge list)" where
  "elements_json ns es =
     (case map_nodes ns of
        Inl e \<Rightarrow> Inl e
      | Inr js \<Rightarrow> Inr (js, map_edges es))"

section \<open>The graph instance\<close>

text \<open>
  The component hands the mapped elements to the \<^verbatim>\<open>cytoscape\<close> constructor and from
  then on works on the instance through its collection interface. The instance is the
  list of its elements, each with an id, its data and its set of classes, and the
  viewport. An element's id is the \<^verbatim>\<open>id\<close> of its data, or an id the library
  generates when the data has none; a generated id differs from every given one.
  The constructor, the collections and the viewport functions belong to the library and
  not to this repository: the definitions of this section follow what the library does.
  \<open>destroyed\<close> says that \<^verbatim>\<open>cy.destroy()\<close> was called on the instance.
\<close>

datatype ele_id = Given string | Generated nat

datatype ele_body = NodeBody GraphNode | EdgeBody GraphEdge

record ele =
  ident :: ele_id
  body :: ele_body
  classes :: "string list"

record bbox =
  bx1 :: real
  by1 :: real
  bx2 :: real
  by2 :: real

record Core =
  elements :: "ele list"
  zoom :: real
  pan :: "real \<times> real"
  minZoom :: real
  maxZoom :: real
  bb :: bbox
  cwidth :: real
  cheight :: real
  destroyed :: bool

text \<open>
  A class string is split at white space into its class names
  (\<^verbatim>\<open>classes: 'a b'\<close> gives the two classes \<^verbatim>\<open>a\<close> and \<^verbatim>\<open>b\<close>).
  \<open>is_space\<close> is the white space of ASCII.
\<close>

definition is_space :: "char \<Rightarrow> bool" where
  "is_space c = (c \<in> set [CHR '' '', CHR 0x09, CHR 0x0A, CHR 0x0B, CHR 0x0C, CHR 0x0D])"

fun class_tokens_from :: "string \<Rightarrow> string \<Rightarrow> string list" where
  "class_tokens_from cur [] = (if cur = [] then [] else [cur])"
| "class_tokens_from cur (c # cs) =
     (if is_space c
      then (if cur = [] then class_tokens_from [] cs else cur # class_tokens_from [] cs)
      else class_tokens_from (cur @ [c]) cs)"

definition class_tokens :: "string \<Rightarrow> string list" where
  "class_tokens s = class_tokens_from [] s"

definition is_node :: "ele \<Rightarrow> bool" where
  "is_node e = (case body e of NodeBody d \<Rightarrow> True | EdgeBody d \<Rightarrow> False)"

definition has_node :: "ele list \<Rightarrow> string \<Rightarrow> bool" where
  "has_node els i = (\<exists>e \<in> set els. is_node e \<and> ident e = Given i)"

text \<open>
  Creating the elements: nodes first, then edges, each in the order given; the \<open>k\<close>-th
  edge without an id of its own gets the generated id \<open>k\<close>. An element whose id is
  already taken is left out without a word. The constructor throws when an id is the
  empty string and when the source or the target of an edge is the id of no element;
  then no instance is returned. An edge that names another edge as its source or
  target is not followed further: for it, too, the model returns no instance.
\<close>

definition node_ele :: "NodeJson \<Rightarrow> ele" where
  "node_ele j =
     \<lparr>ident = Given (nid (jdata j)), body = NodeBody (jdata j),
      classes = remdups (class_tokens (jclasses j))\<rparr>"

fun add_nodes :: "NodeJson list \<Rightarrow> ele list \<Rightarrow> error + ele list" where
  "add_nodes [] els = Inr els"
| "add_nodes (j # js) els =
     (if Given (nid (jdata j)) \<in> ident ` set els then add_nodes js els
      else if nid (jdata j) = [] then Inl CytoscapeError
      else add_nodes js (els @ [node_ele j]))"

definition edge_ident :: "nat \<Rightarrow> GraphEdge \<Rightarrow> ele_id" where
  "edge_ident k d = (case eid d of Some x \<Rightarrow> Given x | None \<Rightarrow> Generated k)"

definition edge_ele :: "nat \<Rightarrow> GraphEdge \<Rightarrow> ele" where
  "edge_ele k d = \<lparr>ident = edge_ident k d, body = EdgeBody d, classes = []\<rparr>"

fun add_edges :: "nat \<Rightarrow> GraphEdge list \<Rightarrow> ele list \<Rightarrow> error + ele list" where
  "add_edges k [] els = Inr els"
| "add_edges k (d # ds) els =
     (if edge_ident k d \<in> ident ` set els then add_edges (Suc k) ds els
      else if edge_ident k d = Given [] then Inl CytoscapeError
      else if has_node els (source d) \<and> has_node els (target d)
      then add_edges (Suc k) ds (els @ [edge_ele k d])
      else Inl CytoscapeError)"

definition create_elements :: "NodeJson list \<times> GraphEdge list \<Rightarrow> error + ele list" where
  "create_elements js =
     (case add_nodes (fst js) [] of
        Inl e \<Rightarrow> Inl e
      | Inr ns \<Rightarrow> add_edges 0 (snd js) ns)"




subsection \<open>Viewport\<close>

text \<open>
  Every zoom level the instance is given is cropped to \<^verbatim>\<open>[minZoom, maxZoom]\<close>.
  \<^verbatim>\<open>cy.zoom(level)\<close> sets the level, \<^verbatim>\<open>cy.center()\<close> pans so that the bounding box
  of the elements is in the middle of the container, \<^verbatim>\<open>cy.fit(undefined, padding)\<close>
  picks the largest level at which the bounding box and the padding fit the container,
  and centres. Numbers are real numbers here (the program computes in binary floating
  point; cropping to the bounds does not depend on the rounding). These functions say
  what a live instance does; on a destroyed instance the calls of the button handlers
  end in a TypeError, which is written into the handlers below.
\<close>

definition crop_zoom :: "Core \<Rightarrow> real \<Rightarrow> real" where
  "crop_zoom cy z =
     (let z1 = (if z > maxZoom cy then maxZoom cy else z)
      in if z1 < minZoom cy then minZoom cy else z1)"

definition set_zoom :: "real \<Rightarrow> Core \<Rightarrow> Core" where
  "set_zoom z cy = cy\<lparr>zoom := crop_zoom cy z\<rparr>"

definition center_pan :: "Core \<Rightarrow> real \<Rightarrow> real \<times> real" where
  "center_pan cy z =
     ((cwidth cy - z * (bx1 (bb cy) + bx2 (bb cy))) / 2,
      (cheight cy - z * (by1 (bb cy) + by2 (bb cy))) / 2)"

definition center :: "Core \<Rightarrow> Core" where
  "center cy = (if elements cy = [] then cy else cy\<lparr>pan := center_pan cy (zoom cy)\<rparr>)"

definition fit :: "real \<Rightarrow> Core \<Rightarrow> Core" where
  "fit padding cy =
     (let w = cwidth cy; h = cheight cy;
          bw = bx2 (bb cy) - bx1 (bb cy); bh = by2 (bb cy) - by1 (bb cy)
      in if elements cy \<noteq> [] \<and> w > 0 \<and> h > 0 \<and> bw > 0 \<and> bh > 0
         then (let z = crop_zoom cy (min ((w - 2 * padding) / bw) ((h - 2 * padding) / bh))
               in cy\<lparr>zoom := z, pan := center_pan cy z\<rparr>)
         else cy)"

text \<open>
  A layout run places the nodes at random (\<^verbatim>\<open>randomize: true\<close>) and leaves a viewport
  of its own choice. Where it ends is not decided by this code: the bounding box and the
  viewport it ends with are the argument \<open>r\<close>.
\<close>

record layout_result =
  laid_bb :: bbox
  laid_zoom :: real
  laid_pan :: "real \<times> real"

definition run_layout :: "layout_result \<Rightarrow> Core \<Rightarrow> Core" where
  "run_layout r cy = cy\<lparr>bb := laid_bb r, zoom := crop_zoom cy (laid_zoom r), pan := laid_pan r\<rparr>"

text \<open>
  The constructor call of lines 54-199: the elements, \<^verbatim>\<open>minZoom: 0.3\<close>,
  \<^verbatim>\<open>maxZoom: 3\<close>, the library's initial viewport (zoom 1, pan (0, 0)) and the
  initial layout run. \<open>sz\<close> is the size of the container.
\<close>

definition cytoscape :: "NodeJson list \<times> GraphEdge list \<Rightarrow> real \<times> real \<Rightarrow> layout_result \<Rightarrow> error + Core" where
  "cytoscape js sz r =
     (case create_elements js of
        Inl e \<Rightarrow> Inl e
      | Inr els \<Rightarrow>
          Inr (run_layout r
                 \<lparr>elements = els, zoom = 1, pan = (0, 0), minZoom = 0.3, maxZoom = 3,
                  bb = laid_bb r, cwidth = fst sz, cheight = snd sz, destroyed = False\<rparr>))"


subsection \<open>Collections\<close>

text \<open>
  \<^verbatim>\<open>node.connectedEdges()\<close> are the edges whose source or target is the node,
  \<^verbatim>\<open>edges.connectedNodes()\<close> the nodes that are source or target of one of the edges,
  \<^verbatim>\<open>eles.not(xs)\<close> the elements of \<^verbatim>\<open>eles\<close> that are not in \<^verbatim>\<open>xs\<close>;
  \<^verbatim>\<open>addClass\<close> and \<^verbatim>\<open>removeClass\<close> change the class sets of the elements of a
  collection. Elements are told apart by their ids.
\<close>

definition touches :: "ele \<Rightarrow> ele_id \<Rightarrow> bool" where
  "touches e n =
     (case body e of
        EdgeBody d \<Rightarrow> Given (source d) = n \<or> Given (target d) = n
      | NodeBody d \<Rightarrow> False)"

definition connectedEdges :: "ele list \<Rightarrow> ele_id \<Rightarrow> ele list" where
  "connectedEdges els n = filter (\<lambda>e. touches e n) els"

definition connectedNodes :: "ele list \<Rightarrow> ele list \<Rightarrow> ele list" where
  "connectedNodes els es = filter (\<lambda>v. is_node v \<and> (\<exists>e \<in> set es. touches e (ident v))) els"

definition coll_not :: "ele list \<Rightarrow> ele_id list \<Rightarrow> ele list" where
  "coll_not els xs = filter (\<lambda>e. ident e \<notin> set xs) els"

definition add_class :: "string \<Rightarrow> ele \<Rightarrow> ele" where
  "add_class c e = (if c \<in> set (classes e) then e else e\<lparr>classes := classes e @ [c]\<rparr>)"

definition remove_classes :: "string list \<Rightarrow> ele \<Rightarrow> ele" where
  "remove_classes cs e = e\<lparr>classes := filter (\<lambda>c. c \<notin> set cs) (classes e)\<rparr>"

definition addClass :: "string \<Rightarrow> ele list \<Rightarrow> ele list \<Rightarrow> ele list" where
  "addClass c coll els = map (\<lambda>e. if ident e \<in> ident ` set coll then add_class c e else e) els"

definition removeClass :: "string list \<Rightarrow> ele list \<Rightarrow> ele list" where
  "removeClass cs els = map (remove_classes cs) els"

section \<open>The component\<close>

text \<open>
  The state of one mounted \<^verbatim>\<open>GraphVisualization\<close>: the two refs, the React state
  \<^verbatim>\<open>selectedNode\<close>, and two records of what the component did to the outside: the
  calls it made to \<^verbatim>\<open>onNodeClick\<close> (oldest first) and the number of layout runs it
  started. \<open>containerRef\<close> holds the size of the container element once it is attached.
\<close>

record Component =
  containerRef :: "(real \<times> real) option"
  cyRef :: "Core option"
  selectedNode :: "GraphNode option"
  clicks :: "(string \<times> GraphNode) list"
  layoutRuns :: nat

definition initial :: "(real \<times> real) option \<Rightarrow> Component" where
  "initial c = \<lparr>containerRef = c, cyRef = None, selectedNode = None, clicks = [], layoutRuns = 0\<rparr>"

text \<open>
  The cleanup of the effect (lines 245-247) destroys the instance the effect made.
  \<^verbatim>\<open>cyRef.current\<close> is assigned in line 201 and nowhere else, so it still refers
  to that instance afterwards.
\<close>

definition cleanup :: "Component \<Rightarrow> Component" where
  "cleanup s =
     (case cyRef s of
        None \<Rightarrow> s
      | Some cy \<Rightarrow> s\<lparr>cyRef := Some (cy\<lparr>destroyed := True\<rparr>)\<rparr>)"

text \<open>
  One run of the effect of lines 50-248 at a render with the props \<open>p\<close>: the cleanup
  the run before it left (none at the first render, where there is no instance), then
  the body up to the registration of the handlers. An exception that leaves the body
  ends the component.
\<close>

definition useEffect :: "Props \<Rightarrow> layout_result \<Rightarrow> Component \<Rightarrow> error + Component" where
  "useEffect p r s0 =
     (let s = cleanup s0
      in case containerRef s of
           None \<Rightarrow> Inr s
         | Some sz \<Rightarrow>
             if nodes p = [] then Inr s
             else (case elements_json (nodes p) (edges p) of
                     Inl e \<Rightarrow> Inl e
                   | Inr js \<Rightarrow>
                       (case cytoscape js sz r of
                          Inl e \<Rightarrow> Inl e
                        | Inr cy \<Rightarrow> Inr (s\<lparr>cyRef := Some cy,
                                            layoutRuns := Suc (layoutRuns s)\<rparr>))))"

definition mount :: "Props \<Rightarrow> (real \<times> real) option \<Rightarrow> layout_result \<Rightarrow> error + Component" where
  "mount p c r = useEffect p r (initial c)"

text \<open>What the component renders beside the graph (lines 294, 337, 373).\<close>

record Rendered =
  controls_shown :: bool
  tooltip_shown :: bool
  empty_state_shown :: bool

definition render :: "Props \<Rightarrow> Component \<Rightarrow> Rendered" where
  "render p s =
     \<lparr>controls_shown = interactive p,
      tooltip_shown = (selectedNode s \<noteq> None),
      empty_state_shown = (nodes p = [])\<rparr>"

subsection \<open>Tap handlers (lines 205-230)\<close>

text \<open>
  The handler for taps on nodes and the general tap handler, which acts only when the
  target is the core. The two hover handlers (lines 233-242) change the cursor of the
  document and nothing of the component; they are left out.
\<close>

definition marks :: "string list" where
  "marks = [''highlighted'', ''faded'']"

definition tap_elements :: "ele_id \<Rightarrow> ele list \<Rightarrow> ele list" where
  "tap_elements node els =
     (let els0 = removeClass marks els;
          connEdges = connectedEdges els0 node;
          connNodes = connectedNodes els0 connEdges;
          rest = coll_not (coll_not (coll_not els0 [node]) (map ident connNodes)) (map ident connEdges);
          els1 = addClass ''faded'' rest els0;
          els2 = addClass ''highlighted'' connEdges els1
      in addClass ''highlighted'' connNodes els2)"

definition on_tap_node :: "Props \<Rightarrow> GraphNode \<Rightarrow> Component \<Rightarrow> Component" where
  "on_tap_node p nodeData s =
     (case cyRef s of
        None \<Rightarrow> s
      | Some cy \<Rightarrow>
          let s1 = s\<lparr>selectedNode := Some nodeData\<rparr>;
              s2 = (if onNodeClick p then s1\<lparr>clicks := clicks s1 @ [(nid nodeData, nodeData)]\<rparr> else s1)
          in s2\<lparr>cyRef := Some (cy\<lparr>elements := tap_elements (Given (nid nodeData)) (elements cy)\<rparr>)\<rparr>)"

text \<open>
  The same change seen from one element \<open>e\<close>, for the ids \<open>E\<close> of the connected
  edges and \<open>N\<close> of the connected nodes (shown equal to \<open>tap_elements\<close> below).
\<close>

definition tap_ele :: "ele_id \<Rightarrow> ele_id set \<Rightarrow> ele_id set \<Rightarrow> ele \<Rightarrow> ele" where
  "tap_ele node E N e =
     (let e0 = remove_classes marks e;
          e1 = (if ident e \<noteq> node \<and> ident e \<notin> N \<and> ident e \<notin> E then add_class ''faded'' e0 else e0);
          e2 = (if ident e \<in> E then add_class ''highlighted'' e1 else e1)
      in if ident e \<in> N then add_class ''highlighted'' e2 else e2)"

datatype tap_target = OnCore | OnNode GraphNode | OnEdge ele_id

definition on_tap :: "tap_target \<Rightarrow> Component \<Rightarrow> Component" where
  "on_tap t s =
     (case cyRef s of
        None \<Rightarrow> s
      | Some cy \<Rightarrow>
          if t = OnCore
          then s\<lparr>cyRef := Some (cy\<lparr>elements := removeClass marks (elements cy)\<rparr>),
                 selectedNode := None\<rparr>
          else s)"

subsection \<open>Button handlers (lines 250-281)\<close>

text \<open>
  Each handler is guarded by \<^verbatim>\<open>if (cyRef.current)\<close>, which a destroyed instance
  passes. The calls into a destroyed instance end in a TypeError before
  \<^verbatim>\<open>setSelectedNode(null)\<close> of line 279 is reached.
\<close>

definition handleZoomIn :: "Component \<Rightarrow> error + Component" where
  "handleZoomIn s =
     (case cyRef s of
        None \<Rightarrow> Inr s
      | Some cy \<Rightarrow>
          if destroyed cy then Inl TypeError
          else Inr (s\<lparr>cyRef := Some (center (set_zoom (zoom cy * 1.2) cy))\<rparr>))"

definition handleZoomOut :: "Component \<Rightarrow> error + Component" where
  "handleZoomOut s =
     (case cyRef s of
        None \<Rightarrow> Inr s
      | Some cy \<Rightarrow>
          if destroyed cy then Inl TypeError
          else Inr (s\<lparr>cyRef := Some (center (set_zoom (zoom cy * 0.8) cy))\<rparr>))"

definition handleFit :: "Component \<Rightarrow> error + Component" where
  "handleFit s =
     (case cyRef s of
        None \<Rightarrow> Inr s
      | Some cy \<Rightarrow>
          if destroyed cy then Inl TypeError
          else Inr (s\<lparr>cyRef := Some (fit 50 cy)\<rparr>))"

definition handleReset :: "layout_result \<Rightarrow> Component \<Rightarrow> error + Component" where
  "handleReset r s =
     (case cyRef s of
        None \<Rightarrow> Inr s
      | Some cy \<Rightarrow>
          if destroyed cy then Inl TypeError
          else Inr (s\<lparr>cyRef := Some (run_layout r (cy\<lparr>elements := removeClass marks (elements cy)\<rparr>)),
                     layoutRuns := Suc (layoutRuns s),
                     selectedNode := None\<rparr>))"

text \<open>One handler after another, as far as none throws.\<close>

definition and_then :: "error + 'a \<Rightarrow> ('a \<Rightarrow> error + 'b) \<Rightarrow> error + 'b" where
  "and_then x f = (case x of Inl e \<Rightarrow> Inl e | Inr a \<Rightarrow> f a)"

subsection \<open>Events\<close>

text \<open>
  The tap handlers are registered only when \<^verbatim>\<open>interactive\<close> holds and the buttons are
  rendered only then. A tap has a target of the instance: the core itself (the
  background), a node or an edge. A tap on a node runs the handler for nodes and then
  the general tap handler, in the order of their registration. A destroyed instance
  has no renderer and gets no tap; the tap handlers are stated for every instance all
  the same. An exception that leaves a click handler is reported and the component goes
  on in the state it had.
\<close>

datatype event =
    Tap tap_target
  | ClickZoomIn
  | ClickZoomOut
  | ClickFit
  | ClickReset layout_result

definition is_target :: "Core \<Rightarrow> tap_target \<Rightarrow> bool" where
  "is_target cy t =
     (case t of
        OnCore \<Rightarrow> True
      | OnNode d \<Rightarrow> (\<exists>e \<in> set (elements cy). body e = NodeBody d \<and> ident e = Given (nid d))
      | OnEdge i \<Rightarrow> (\<exists>e \<in> set (elements cy). \<not> is_node e \<and> ident e = i))"

definition dispatch_tap :: "Props \<Rightarrow> tap_target \<Rightarrow> Component \<Rightarrow> Component" where
  "dispatch_tap p t s =
     (case cyRef s of
        None \<Rightarrow> s
      | Some cy \<Rightarrow>
          if is_target cy t
          then on_tap t (case t of OnNode d \<Rightarrow> on_tap_node p d s | _ \<Rightarrow> s)
          else s)"

definition caught :: "Component \<Rightarrow> error + Component \<Rightarrow> Component" where
  "caught s x = (case x of Inl e \<Rightarrow> s | Inr s' \<Rightarrow> s')"

fun step :: "Props \<Rightarrow> event \<Rightarrow> Component \<Rightarrow> Component" where
  "step p (Tap t) s = (if interactive p then dispatch_tap p t s else s)"
| "step p ClickZoomIn s = (if interactive p then caught s (handleZoomIn s) else s)"
| "step p ClickZoomOut s = (if interactive p then caught s (handleZoomOut s) else s)"
| "step p ClickFit s = (if interactive p then caught s (handleFit s) else s)"
| "step p (ClickReset r) s = (if interactive p then caught s (handleReset r s) else s)"

fun run :: "Props \<Rightarrow> event list \<Rightarrow> Component \<Rightarrow> Component" where
  "run p [] s = s"
| "run p (ev # evs) s = run p evs (step p ev s)"

section \<open>RenderState\<close>

text \<open>
  The selection state the specification calls RenderState, read off the component:
  the id of \<^verbatim>\<open>selectedNode\<close>, and the ids of the elements that carry the class
  \<^verbatim>\<open>highlighted\<close> and the class \<^verbatim>\<open>faded\<close>.
\<close>

definition instance_elements :: "Component \<Rightarrow> ele list" where
  "instance_elements s = (case cyRef s of None \<Rightarrow> [] | Some cy \<Rightarrow> elements cy)"

definition marked :: "string \<Rightarrow> ele list \<Rightarrow> ele_id set" where
  "marked c els = ident ` {e \<in> set els. c \<in> set (classes e)}"

definition highlighted :: "Component \<Rightarrow> ele_id set" where
  "highlighted s = marked ''highlighted'' (instance_elements s)"

definition faded :: "Component \<Rightarrow> ele_id set" where
  "faded s = marked ''faded'' (instance_elements s)"

definition selectedNodeId :: "Component \<Rightarrow> string option" where
  "selectedNodeId s = map_option nid (selectedNode s)"

definition renderState :: "Component \<Rightarrow> string option \<times> ele_id set \<times> ele_id set" where
  "renderState s = (selectedNodeId s, highlighted s, faded s)"

definition Idle :: "string option \<times> ele_id set \<times> ele_id set" where
  "Idle = (None, {}, {})"

definition allElements :: "Component \<Rightarrow> ele_id set" where
  "allElements s = ident ` set (instance_elements s)"

text \<open>
  The neighbourhood of a node in the words of the specification: the incident edges
  are the edges touching the node, the neighbours are the nodes those edges touch.
\<close>

definition incident :: "ele list \<Rightarrow> ele_id \<Rightarrow> ele_id set" where
  "incident els n = {i. \<exists>e \<in> set els. ident e = i \<and> touches e n}"

definition adjacent :: "ele list \<Rightarrow> ele_id \<Rightarrow> ele_id set" where
  "adjacent els n =
     {i. \<exists>v \<in> set els. ident v = i \<and> is_node v \<and> (\<exists>e \<in> set els. touches e n \<and> touches e i)}"

definition incidentEdges :: "Component \<Rightarrow> ele_id \<Rightarrow> ele_id set" where
  "incidentEdges s n = incident (instance_elements s) n"

definition neighbors :: "Component \<Rightarrow> ele_id \<Rightarrow> ele_id set" where
  "neighbors s n = adjacent (instance_elements s) n"

text \<open>The viewport of the component: the zoom factor and the pan of its instance.\<close>

definition viewport :: "Component \<Rightarrow> (real \<times> real \<times> real) option" where
  "viewport s = map_option (\<lambda>cy. (zoom cy, pan cy)) (cyRef s)"


text \<open>
  The viewport operations of the specification are the three button handlers; a
  sequence of them is applied from left to right and ends at the first that throws.
\<close>

datatype viewport_op = ZoomIn | ZoomOut | FitToBounds

fun apply_op :: "viewport_op \<Rightarrow> Component \<Rightarrow> error + Component" where
  "apply_op ZoomIn s = handleZoomIn s"
| "apply_op ZoomOut s = handleZoomOut s"
| "apply_op FitToBounds s = handleFit s"

fun apply_ops :: "viewport_op list \<Rightarrow> Component \<Rightarrow> error + Component" where
  "apply_ops [] s = Inr s"
| "apply_ops (x # xs) s = and_then (apply_op x s) (apply_ops xs)"

definition zoomFactor :: "Component \<Rightarrow> real option" where
  "zoomFactor s = map_option zoom (cyRef s)"

definition zoom_bounded :: "Component \<Rightarrow> bool" where
  "zoom_bounded s =
     (case cyRef s of
        None \<Rightarrow> True
      | Some cy \<Rightarrow>
          \<not> destroyed cy \<and> minZoom cy = 0.3 \<and> maxZoom cy = 3 \<and> 0.3 \<le> zoom cy \<and> zoom cy \<le> 3)"

section \<open>A concrete graph\<close>

text \<open>
  The graph of the specification's scenario, \<open>A(User)\<close>, \<open>B(Project)\<close>, \<open>C(Skill)\<close>
  with the edges \<open>A \<rightarrow> B\<close> and \<open>B \<rightarrow> C\<close>, and a fourth node \<open>D\<close> with no edge.
\<close>

definition nodeA :: GraphNode where
  "nodeA = \<lparr>nid = ''A'', nlabel = ''Ada'', ntype = Some ''User''\<rparr>"

definition nodeB :: GraphNode where
  "nodeB = \<lparr>nid = ''B'', nlabel = ''Crux'', ntype = Some ''Project''\<rparr>"

definition nodeC :: GraphNode where
  "nodeC = \<lparr>nid = ''C'', nlabel = ''Rust'', ntype = Some ''Skill''\<rparr>"

definition nodeD :: GraphNode where
  "nodeD = \<lparr>nid = ''D'', nlabel = ''MIT'', ntype = Some ''Education''\<rparr>"

definition edgeAB :: GraphEdge where
  "edgeAB = \<lparr>eid = Some ''AB'', source = ''A'', target = ''B'', relationship = ''OWNS''\<rparr>"

definition edgeBC :: GraphEdge where
  "edgeBC = \<lparr>eid = Some ''BC'', source = ''B'', target = ''C'', relationship = ''USES''\<rparr>"

definition props0 :: Props where
  "props0 = \<lparr>nodes = [nodeA, nodeB, nodeC, nodeD], edges = [edgeAB, edgeBC],
             onNodeClick = True, interactive = True\<rparr>"

definition layout0 :: layout_result where
  "layout0 = \<lparr>laid_bb = \<lparr>bx1 = 0, by1 = 0, bx2 = 400, by2 = 300\<rparr>, laid_zoom = 1, laid_pan = (200, 150)\<rparr>"

definition core0 :: Core where
  "core0 =
     \<lparr>elements =
        [\<lparr>ident = Given ''A'', body = NodeBody nodeA, classes = [''user'']\<rparr>,
         \<lparr>ident = Given ''B'', body = NodeBody nodeB, classes = [''project'']\<rparr>,
         \<lparr>ident = Given ''C'', body = NodeBody nodeC, classes = [''skill'']\<rparr>,
         \<lparr>ident = Given ''D'', body = NodeBody nodeD, classes = [''education'']\<rparr>,
         \<lparr>ident = Given ''AB'', body = EdgeBody edgeAB, classes = []\<rparr>,
         \<lparr>ident = Given ''BC'', body = EdgeBody edgeBC, classes = []\<rparr>],
      zoom = 1, pan = (200, 150), minZoom = 0.3, maxZoom = 3,
      bb = \<lparr>bx1 = 0, by1 = 0, bx2 = 400, by2 = 300\<rparr>, cwidth = 800, cheight = 600,
      destroyed = False\<rparr>"

definition state0 :: Component where
  "state0 = \<lparr>containerRef = Some (800, 600), cyRef = Some core0, selectedNode = None,
             clicks = [], layoutRuns = 1\<rparr>"



definition zoomIn7 :: "viewport_op list" where
  "zoomIn7 = replicate 7 ZoomIn"

definition emptyProps :: Props where
  "emptyProps = \<lparr>nodes = [], edges = [], onNodeClick = True, interactive = True\<rparr>"






text \<open>
  The component of the concrete graph after its props changed to an empty node list:
  untouched (\<open>stale0\<close>) and with the node \<open>B\<close> selected before the change
  (\<open>staleB\<close>).
\<close>

definition stale0 :: Component where
  "stale0 = state0\<lparr>cyRef := Some (core0\<lparr>destroyed := True\<rparr>)\<rparr>"

definition selectedB :: Component where
  "selectedB = step props0 (Tap (OnNode nodeB)) state0"

definition staleB :: Component where
  "staleB = cleanup selectedB"

section \<open>Facts about the model\<close>

lemma toLowerCase_User: "toLowerCase ''User'' = ''user''"
  by (simp add: toLowerCase_def lower_char_def)

lemma mount_props0: "mount props0 (Some (800, 600)) layout0 = Inr state0"
  by (simp add: mount_def useEffect_def initial_def props0_def elements_json_def map_edges_def
      node_json_def nodeA_def nodeB_def nodeC_def nodeD_def edgeAB_def edgeBC_def
      toLowerCase_def lower_char_def cytoscape_def create_elements_def edge_ident_def
      cleanup_def run_layout_def crop_zoom_def layout0_def state0_def core0_def
      class_tokens_def is_space_def has_node_def is_node_def node_ele_def edge_ele_def)

subsection \<open>Classes, ids and data of changed elements\<close>

lemma ident_remove_classes [simp]: "ident (remove_classes cs e) = ident e"
  by (simp add: remove_classes_def)

lemma body_remove_classes [simp]: "body (remove_classes cs e) = body e"
  by (simp add: remove_classes_def)

lemma classes_remove_classes [simp]:
  "classes (remove_classes cs e) = filter (\<lambda>c. c \<notin> set cs) (classes e)"
  by (simp add: remove_classes_def)

lemma ident_add_class [simp]: "ident (add_class c e) = ident e"
  by (simp add: add_class_def)

lemma body_add_class [simp]: "body (add_class c e) = body e"
  by (simp add: add_class_def)

lemma set_classes_add_class [simp]: "set (classes (add_class c e)) = insert c (set (classes e))"
  by (auto simp: add_class_def)

lemma touches_body: "body e' = body e \<Longrightarrow> touches e' n = touches e n"
  by (simp add: touches_def)

lemma is_node_body: "body e' = body e \<Longrightarrow> is_node e' = is_node e"
  by (simp add: is_node_def)

lemma touches_remove_classes [simp]: "touches (remove_classes cs e) n = touches e n"
  by (simp add: touches_def)

lemma is_node_remove_classes [simp]: "is_node (remove_classes cs e) = is_node e"
  by (simp add: is_node_def)

lemma connectedEdges_removeClass:
  "connectedEdges (removeClass cs els) n = removeClass cs (connectedEdges els n)"
  by (simp add: connectedEdges_def removeClass_def filter_map comp_def)

lemma touched_by_removeClass:
  "(\<exists>e \<in> set (removeClass cs es). touches e i) = (\<exists>e \<in> set es. touches e i)"
  by (simp add: removeClass_def)

lemma connectedNodes_removeClass:
  "connectedNodes (removeClass cs els) (removeClass cs es) = removeClass cs (connectedNodes els es)"
  by (simp add: connectedNodes_def touched_by_removeClass)
     (simp add: removeClass_def filter_map comp_def)

lemma idents_removeClass [simp]: "ident ` set (removeClass cs els) = ident ` set els"
  by (simp add: removeClass_def image_image)

lemma idents_coll_not: "ident ` set (coll_not els xs) = ident ` set els - set xs"
  by (auto simp: coll_not_def)

subsection \<open>The node tap, element by element\<close>

lemma tap_elements_map:
  "tap_elements node els =
     map (tap_ele node (ident ` set (connectedEdges els node))
            (ident ` set (connectedNodes els (connectedEdges els node)))) els"
proof -
  define E where "E = ident ` set (connectedEdges els node)"
  define N where "N = ident ` set (connectedNodes els (connectedEdges els node))"
  define els0 where "els0 = removeClass marks els"
  have cE: "ident ` set (connectedEdges els0 node) = E"
    by (simp add: els0_def E_def connectedEdges_removeClass)
  have cN: "ident ` set (connectedNodes els0 (connectedEdges els0 node)) = N"
    by (simp add: els0_def N_def connectedEdges_removeClass connectedNodes_removeClass)
  have rest: "ident ` set (coll_not (coll_not (coll_not els0 [node])
        (map ident (connectedNodes els0 (connectedEdges els0 node))))
        (map ident (connectedEdges els0 node))) = ident ` set els - {node} - N - E"
    by (simp add: idents_coll_not cE cN) (simp add: els0_def)
  have "tap_elements node els =
      addClass ''highlighted'' (connectedNodes els0 (connectedEdges els0 node))
        (addClass ''highlighted'' (connectedEdges els0 node)
          (addClass ''faded'' (coll_not (coll_not (coll_not els0 [node])
        (map ident (connectedNodes els0 (connectedEdges els0 node))))
        (map ident (connectedEdges els0 node))) els0))"
    by (simp add: tap_elements_def Let_def els0_def)
  also have "\<dots> = map (tap_ele node E N) els"
    unfolding addClass_def cE cN rest
    by (simp add: els0_def removeClass_def tap_ele_def Let_def)
  finally show ?thesis by (simp add: E_def N_def)
qed

lemma ident_tap_ele [simp]: "ident (tap_ele node E N e) = ident e"
  by (simp add: tap_ele_def Let_def)

lemma body_tap_ele [simp]: "body (tap_ele node E N e) = body e"
  by (simp add: tap_ele_def Let_def)

lemma highlighted_tap_ele:
  "''highlighted'' \<in> set (classes (tap_ele node E N e)) \<longleftrightarrow> ident e \<in> E \<union> N"
  by (simp add: tap_ele_def Let_def marks_def)

lemma faded_tap_ele:
  "''faded'' \<in> set (classes (tap_ele node E N e)) \<longleftrightarrow>
     ident e \<noteq> node \<and> ident e \<notin> N \<and> ident e \<notin> E"
  by (simp add: tap_ele_def Let_def marks_def)

lemma idents_connectedEdges: "ident ` set (connectedEdges els n) = incident els n"
  by (auto simp: connectedEdges_def incident_def)

lemma idents_connectedNodes:
  "ident ` set (connectedNodes els (connectedEdges els n)) = adjacent els n"
  by (auto simp: connectedNodes_def connectedEdges_def adjacent_def)

lemma incident_subset: "incident els n \<subseteq> ident ` set els"
  by (auto simp: incident_def)

lemma adjacent_subset: "adjacent els n \<subseteq> ident ` set els"
  by (auto simp: adjacent_def)

lemma marked_map:
  assumes "\<And>e. ident (f e) = ident e"
  shows "marked c (map f els) = {i. \<exists>e \<in> set els. ident e = i \<and> c \<in> set (classes (f e))}"
proof -
  have "marked c (map f els) = (\<lambda>e. ident (f e)) ` {e \<in> set els. c \<in> set (classes (f e))}"
    unfolding marked_def by force
  then show ?thesis
    by (auto simp: assms)
qed

lemma marked_highlighted_tap:
  "marked ''highlighted'' (tap_elements n els) = incident els n \<union> adjacent els n"
proof -
  have "marked ''highlighted'' (tap_elements n els) =
      {i. \<exists>e \<in> set els. ident e = i \<and> i \<in> incident els n \<union> adjacent els n}"
    by (simp add: tap_elements_map marked_map highlighted_tap_ele idents_connectedEdges
        idents_connectedNodes del: Un_iff) metis
  then show ?thesis
    using incident_subset [of els n] adjacent_subset [of els n] by auto
qed

lemma marked_faded_tap:
  "marked ''faded'' (tap_elements n els) =
     ident ` set els - ({n} \<union> incident els n \<union> adjacent els n)"
proof -
  have "marked ''faded'' (tap_elements n els) =
      {i. \<exists>e \<in> set els. ident e = i \<and> i \<noteq> n \<and> i \<notin> adjacent els n \<and> i \<notin> incident els n}"
    by (simp add: tap_elements_map marked_map faded_tap_ele idents_connectedEdges
        idents_connectedNodes) metis
  then show ?thesis
    by auto
qed

subsection \<open>What a change of classes leaves alone\<close>

lemma incident_map:
  assumes "\<And>e. ident (f e) = ident e" and "\<And>e. body (f e) = body e"
  shows "incident (map f els) n = incident els n"
  by (simp add: incident_def assms touches_body [OF assms(2)])

lemma adjacent_map:
  assumes "\<And>e. ident (f e) = ident e" and "\<And>e. body (f e) = body e"
  shows "adjacent (map f els) n = adjacent els n"
  by (simp add: adjacent_def assms touches_body [OF assms(2)] is_node_body [OF assms(2)])

lemma idents_map:
  assumes "\<And>e. ident (f e) = ident e"
  shows "ident ` set (map f els) = ident ` set els"
  by (simp add: image_image assms)

lemma incident_tap [simp]: "incident (tap_elements m els) n = incident els n"
  by (simp add: tap_elements_map incident_map)

lemma adjacent_tap [simp]: "adjacent (tap_elements m els) n = adjacent els n"
  by (simp add: tap_elements_map adjacent_map)

lemma idents_tap [simp]: "ident ` set (tap_elements m els) = ident ` set els"
  by (simp add: tap_elements_map image_image)

lemma incident_removeClass [simp]: "incident (removeClass cs els) n = incident els n"
  by (simp add: removeClass_def incident_map)

lemma adjacent_removeClass [simp]: "adjacent (removeClass cs els) n = adjacent els n"
  by (simp add: removeClass_def adjacent_map)

lemma marked_removeClass: "c \<in> set cs \<Longrightarrow> marked c (removeClass cs els) = {}"
  by (simp add: removeClass_def marked_map)

lemma marked_cleared [simp]:
  "marked ''highlighted'' (removeClass marks els) = {}"
  "marked ''faded'' (removeClass marks els) = {}"
  by (simp_all add: marked_removeClass marks_def)

lemma tap_elements_Nil [simp]: "tap_elements n [] = []"
  by (simp add: tap_elements_map)

subsection \<open>The handlers on the elements and on the selection\<close>

lemma elements_on_tap_node [simp]:
  "instance_elements (on_tap_node p d s) = tap_elements (Given (nid d)) (instance_elements s)"
  by (simp add: instance_elements_def on_tap_node_def Let_def split: option.splits)

lemma selectedNode_on_tap_node:
  "selectedNode (on_tap_node p d s) = (if cyRef s = None then selectedNode s else Some d)"
  by (simp add: on_tap_node_def Let_def split: option.splits)

lemma cyRef_on_tap_node [simp]: "cyRef (on_tap_node p d s) = None \<longleftrightarrow> cyRef s = None"
  by (simp add: on_tap_node_def Let_def split: option.splits)

lemma elements_on_tap:
  "instance_elements (on_tap t s) =
     (if t = OnCore then removeClass marks (instance_elements s) else instance_elements s)"
  by (simp add: instance_elements_def on_tap_def removeClass_def split: option.splits)

lemma selectedNode_on_tap:
  "selectedNode (on_tap t s) = (if t = OnCore \<and> cyRef s \<noteq> None then None else selectedNode s)"
  by (simp add: on_tap_def split: option.splits)

lemma cyRef_on_tap [simp]: "cyRef (on_tap t s) = None \<longleftrightarrow> cyRef s = None"
  by (simp add: on_tap_def split: option.splits)

lemma clicks_on_tap [simp]: "clicks (on_tap t s) = clicks s"
  by (simp add: on_tap_def split: option.splits)

lemma elements_center [simp]: "elements (center cy) = elements cy"
  by (simp add: center_def)

lemma elements_set_zoom [simp]: "elements (set_zoom z cy) = elements cy"
  by (simp add: set_zoom_def)

lemma elements_fit [simp]: "elements (fit pad cy) = elements cy"
  by (simp add: fit_def Let_def)

lemma elements_run_layout [simp]: "elements (run_layout r cy) = elements cy"
  by (simp add: run_layout_def)

text \<open>The button handlers by the state of the instance reference.\<close>

lemma handleZoomIn_none: "cyRef s = None \<Longrightarrow> handleZoomIn s = Inr s"
  by (simp add: handleZoomIn_def)

lemma handleZoomIn_destroyed: "cyRef s = Some cy \<Longrightarrow> destroyed cy \<Longrightarrow> handleZoomIn s = Inl TypeError"
  by (simp add: handleZoomIn_def)

lemma handleZoomIn_live:
  "cyRef s = Some cy \<Longrightarrow> \<not> destroyed cy \<Longrightarrow>
     handleZoomIn s = Inr (s\<lparr>cyRef := Some (center (set_zoom (zoom cy * 1.2) cy))\<rparr>)"
  by (simp add: handleZoomIn_def)

lemma handleZoomOut_none: "cyRef s = None \<Longrightarrow> handleZoomOut s = Inr s"
  by (simp add: handleZoomOut_def)

lemma handleZoomOut_destroyed: "cyRef s = Some cy \<Longrightarrow> destroyed cy \<Longrightarrow> handleZoomOut s = Inl TypeError"
  by (simp add: handleZoomOut_def)

lemma handleZoomOut_live:
  "cyRef s = Some cy \<Longrightarrow> \<not> destroyed cy \<Longrightarrow>
     handleZoomOut s = Inr (s\<lparr>cyRef := Some (center (set_zoom (zoom cy * 0.8) cy))\<rparr>)"
  by (simp add: handleZoomOut_def)

lemma handleFit_none: "cyRef s = None \<Longrightarrow> handleFit s = Inr s"
  by (simp add: handleFit_def)

lemma handleFit_destroyed: "cyRef s = Some cy \<Longrightarrow> destroyed cy \<Longrightarrow> handleFit s = Inl TypeError"
  by (simp add: handleFit_def)

lemma handleFit_live:
  "cyRef s = Some cy \<Longrightarrow> \<not> destroyed cy \<Longrightarrow> handleFit s = Inr (s\<lparr>cyRef := Some (fit 50 cy)\<rparr>)"
  by (simp add: handleFit_def)

lemma handleReset_none: "cyRef s = None \<Longrightarrow> handleReset r s = Inr s"
  by (simp add: handleReset_def)

lemma handleReset_destroyed: "cyRef s = Some cy \<Longrightarrow> destroyed cy \<Longrightarrow> handleReset r s = Inl TypeError"
  by (simp add: handleReset_def)

lemma handleReset_live:
  "cyRef s = Some cy \<Longrightarrow> \<not> destroyed cy \<Longrightarrow>
     handleReset r s =
       Inr (s\<lparr>cyRef := Some (run_layout r (cy\<lparr>elements := removeClass marks (elements cy)\<rparr>)),
              layoutRuns := Suc (layoutRuns s), selectedNode := None\<rparr>)"
  by (simp add: handleReset_def)

text \<open>What a viewport handler that returns leaves alone.\<close>

lemma handleZoomIn_returns:
  assumes "handleZoomIn s = Inr t"
  shows "instance_elements t = instance_elements s" and "selectedNode t = selectedNode s"
    and "clicks t = clicks s" and "layoutRuns t = layoutRuns s"
    and "cyRef t = None \<longleftrightarrow> cyRef s = None"
  using assms
  by (auto simp: handleZoomIn_def instance_elements_def split: option.splits if_splits)

lemma handleZoomOut_returns:
  assumes "handleZoomOut s = Inr t"
  shows "instance_elements t = instance_elements s" and "selectedNode t = selectedNode s"
    and "clicks t = clicks s" and "layoutRuns t = layoutRuns s"
    and "cyRef t = None \<longleftrightarrow> cyRef s = None"
  using assms
  by (auto simp: handleZoomOut_def instance_elements_def split: option.splits if_splits)

lemma handleFit_returns:
  assumes "handleFit s = Inr t"
  shows "instance_elements t = instance_elements s" and "selectedNode t = selectedNode s"
    and "clicks t = clicks s" and "layoutRuns t = layoutRuns s"
    and "cyRef t = None \<longleftrightarrow> cyRef s = None"
  using assms
  by (auto simp: handleFit_def instance_elements_def split: option.splits if_splits)

lemma handleReset_returns:
  assumes "handleReset r s = Inr t"
  shows "instance_elements t = removeClass marks (instance_elements s)"
    and "selectedNode t = (if cyRef s = None then selectedNode s else None)"
    and "clicks t = clicks s"
    and "layoutRuns t = (if cyRef s = None then layoutRuns s else Suc (layoutRuns s))"
    and "cyRef t = None \<longleftrightarrow> cyRef s = None"
  using assms
  by (auto simp: handleReset_def instance_elements_def removeClass_def split: option.splits if_splits)

lemma caught_cases: "caught s x = s \<or> x = Inr (caught s x)"
  by (cases x) (simp_all add: caught_def)

lemma no_instance_no_elements: "cyRef s = None \<Longrightarrow> instance_elements s = []"
  by (simp add: instance_elements_def)

subsection \<open>The selection after a node tap\<close>

lemma highlighted_on_tap_node:
  "highlighted (on_tap_node p d s) = incidentEdges s (Given (nid d)) \<union> neighbors s (Given (nid d))"
  by (simp add: highlighted_def incidentEdges_def neighbors_def marked_highlighted_tap)

lemma faded_on_tap_node:
  "faded (on_tap_node p d s) =
     allElements s - ({Given (nid d)} \<union> incidentEdges s (Given (nid d)) \<union> neighbors s (Given (nid d)))"
  by (simp add: faded_def allElements_def incidentEdges_def neighbors_def marked_faded_tap)

lemma is_target_map:
  assumes "\<And>e. ident (f e) = ident e" and "\<And>e. body (f e) = body e"
  shows "is_target (cy\<lparr>elements := map f els\<rparr>) t = is_target (cy\<lparr>elements := els\<rparr>) t"
  by (cases t) (simp_all add: is_target_def assms is_node_body [OF assms(2)])

lemma is_target_same [simp]: "is_target (cy\<lparr>elements := elements cy\<rparr>) t = is_target cy t"
  by (simp add: is_target_def)

lemma is_target_tap [simp]:
  "is_target (cy\<lparr>elements := tap_elements n els\<rparr>) t = is_target (cy\<lparr>elements := els\<rparr>) t"
  by (simp add: tap_elements_map is_target_map)

lemma is_target_removeClass [simp]:
  "is_target (cy\<lparr>elements := removeClass cs els\<rparr>) t = is_target (cy\<lparr>elements := els\<rparr>) t"
  by (simp add: removeClass_def is_target_map)

lemma step_tap_node:
  "step p (Tap (OnNode d)) s =
     (if interactive p \<and> (\<exists>cy. cyRef s = Some cy \<and> is_target cy (OnNode d))
      then on_tap_node p d s else s)"
  by (auto simp: dispatch_tap_def on_tap_def split: option.splits)

lemma cyRef_on_tap_node_Some:
  "cyRef s = Some cy \<Longrightarrow>
     cyRef (on_tap_node p d s) = Some (cy\<lparr>elements := tap_elements (Given (nid d)) (elements cy)\<rparr>)"
  by (simp add: on_tap_node_def Let_def)

lemma step_tap_node_twice:
  "step p (Tap (OnNode d)) (step p (Tap (OnNode d)) s) =
     (if interactive p \<and> (\<exists>cy. cyRef s = Some cy \<and> is_target cy (OnNode d))
      then on_tap_node p d (on_tap_node p d s) else s)"
proof (cases "interactive p \<and> (\<exists>cy. cyRef s = Some cy \<and> is_target cy (OnNode d))")
  case True
  then obtain cy where cy: "cyRef s = Some cy" "is_target cy (OnNode d)"
    by blast
  have once: "step p (Tap (OnNode d)) s = on_tap_node p d s"
    using True by (simp add: step_tap_node del: step.simps)
  have "\<exists>cy'. cyRef (on_tap_node p d s) = Some cy' \<and> is_target cy' (OnNode d)"
    using cy by (simp add: cyRef_on_tap_node_Some)
  then have "step p (Tap (OnNode d)) (on_tap_node p d s) = on_tap_node p d (on_tap_node p d s)"
    using True by (simp add: step_tap_node del: step.simps)
  then show ?thesis
    using True once by (simp del: step.simps)
next
  case False
  then have "step p (Tap (OnNode d)) s = s"
    by (auto simp: step_tap_node simp del: step.simps)
  then show ?thesis
    using False by (auto simp del: step.simps)
qed

lemma step_tap_core:
  "step p (Tap OnCore) s = (if interactive p then on_tap OnCore s else s)"
  by (auto simp: dispatch_tap_def on_tap_def is_target_def split: option.splits)

lemma step_tap_edge: "step p (Tap (OnEdge i)) s = s"
  by (auto simp: dispatch_tap_def on_tap_def split: option.splits)

subsection \<open>The concrete graph, evaluated\<close>

lemmas graph0_defs = nodeA_def nodeB_def nodeC_def nodeD_def edgeAB_def edgeBC_def

lemma elements_state0: "instance_elements state0 = elements core0"
  by (simp add: instance_elements_def state0_def)

lemma allElements_state0:
  "allElements state0 =
     {Given ''A'', Given ''B'', Given ''C'', Given ''D'', Given ''AB'', Given ''BC''}"
  by (simp add: allElements_def elements_state0 core0_def)

lemma incident_state0_B: "incidentEdges state0 (Given ''B'') = {Given ''AB'', Given ''BC''}"
  unfolding incidentEdges_def elements_state0 idents_connectedEdges [symmetric]
  by (simp add: connectedEdges_def core0_def touches_def graph0_defs)

lemma neighbors_state0_B: "neighbors state0 (Given ''B'') = {Given ''A'', Given ''B'', Given ''C''}"
  unfolding neighbors_def elements_state0 idents_connectedNodes [symmetric]
  by (simp add: connectedNodes_def connectedEdges_def core0_def touches_def is_node_def graph0_defs)

lemma incident_state0_D: "incidentEdges state0 (Given ''D'') = {}"
  unfolding incidentEdges_def elements_state0 idents_connectedEdges [symmetric]
  by (simp add: connectedEdges_def core0_def touches_def graph0_defs)

lemma neighbors_state0_D: "neighbors state0 (Given ''D'') = {}"
  unfolding neighbors_def elements_state0 idents_connectedNodes [symmetric]
  by (simp add: connectedNodes_def connectedEdges_def core0_def touches_def is_node_def graph0_defs)

lemma interactive_props0: "interactive props0"
  by (simp add: props0_def)

lemma cyRef_state0: "cyRef state0 = Some core0"
  by (simp add: state0_def)

lemma is_target_core0_B: "is_target core0 (OnNode nodeB)"
  by (simp add: is_target_def core0_def graph0_defs)

lemma is_target_core0_D: "is_target core0 (OnNode nodeD)"
  by (simp add: is_target_def core0_def graph0_defs)

lemma step_tap_D: "step props0 (Tap (OnNode nodeD)) state0 = on_tap_node props0 nodeD state0"
  using interactive_props0 cyRef_state0 is_target_core0_D
  by (simp add: step_tap_node del: step.simps)

lemma step_tap_B: "step props0 (Tap (OnNode nodeB)) state0 = on_tap_node props0 nodeB state0"
  using interactive_props0 cyRef_state0 is_target_core0_B
  by (simp add: step_tap_node del: step.simps)

lemma nid_nodes [simp]: "nid nodeA = ''A''" "nid nodeB = ''B''" "nid nodeC = ''C''" "nid nodeD = ''D''"
  by (simp_all add: graph0_defs)

subsection \<open>Tapping the same node again\<close>

lemma remove_classes_add_class:
  "c \<in> set cs \<Longrightarrow> remove_classes cs (add_class c e) = remove_classes cs e"
  by (simp add: remove_classes_def add_class_def)

lemma remove_classes_twice [simp]: "remove_classes cs (remove_classes cs e) = remove_classes cs e"
  by (simp add: remove_classes_def)

lemma remove_marks_tap_ele: "remove_classes marks (tap_ele n E N e) = remove_classes marks e"
  by (simp add: tap_ele_def Let_def remove_classes_add_class marks_def)

lemma tap_ele_twice: "tap_ele n E N (tap_ele n E N e) = tap_ele n E N e"
proof -
  have "tap_ele n E N (tap_ele n E N e) =
      (let e0 = remove_classes marks (tap_ele n E N e);
          e1 = (if ident e \<noteq> n \<and> ident e \<notin> N \<and> ident e \<notin> E then add_class ''faded'' e0 else e0);
          e2 = (if ident e \<in> E then add_class ''highlighted'' e1 else e1)
      in if ident e \<in> N then add_class ''highlighted'' e2 else e2)"
    by (simp add: tap_ele_def [of n E N "tap_ele n E N e"])
  then show ?thesis
    by (simp add: remove_marks_tap_ele) (simp add: tap_ele_def)
qed

lemma connected_tap:
  "ident ` set (connectedEdges (tap_elements n els) n) = ident ` set (connectedEdges els n)"
  "ident ` set (connectedNodes (tap_elements n els) (connectedEdges (tap_elements n els) n)) =
     ident ` set (connectedNodes els (connectedEdges els n))"
  by (simp_all add: idents_connectedEdges idents_connectedNodes)

lemma tap_elements_twice: "tap_elements n (tap_elements n els) = tap_elements n els"
proof -
  have "tap_elements n (tap_elements n els) =
      map (tap_ele n (ident ` set (connectedEdges els n))
            (ident ` set (connectedNodes els (connectedEdges els n)))) (tap_elements n els)"
    by (simp only: tap_elements_map [of n "tap_elements n els"] connected_tap)
  also have "\<dots> = tap_elements n els"
    by (simp add: tap_elements_map [of n els] tap_ele_twice)
  finally show ?thesis .
qed

lemma on_tap_node_twice:
  "on_tap_node p d (on_tap_node p d s) = (on_tap_node p d s)\<lparr>clicks := clicks (on_tap_node p d (on_tap_node p d s))\<rparr>"
  by (cases "cyRef s") (simp_all add: on_tap_node_def Let_def tap_elements_twice)

lemma renderState_clicks [simp]: "renderState (s\<lparr>clicks := x\<rparr>) = renderState s"
  by (simp add: renderState_def selectedNodeId_def highlighted_def faded_def instance_elements_def)

lemma marked_Nil [simp]: "marked c [] = {}"
  by (simp add: marked_def)

lemma renderState_on_tap_core: "renderState (on_tap OnCore s) = (if cyRef s = None then renderState s else Idle)"
  by (simp add: renderState_def Idle_def selectedNodeId_def highlighted_def faded_def
      elements_on_tap selectedNode_on_tap no_instance_no_elements)

subsection \<open>The background tap and the reset\<close>

lemma renderState_handleReset:
  "handleReset r s = Inr t \<Longrightarrow> renderState t = (if cyRef s = None then renderState s else Idle)"
  by (simp add: renderState_def Idle_def selectedNodeId_def highlighted_def faded_def
      handleReset_returns no_instance_no_elements)


lemma no_marks_removeClass:
  "e \<in> set (removeClass marks els) \<Longrightarrow>
     ''highlighted'' \<notin> set (classes e) \<and> ''faded'' \<notin> set (classes e)"
  by (auto simp: removeClass_def marks_def)

subsection \<open>The invariant of the selection\<close>
















lemma renderState_state0: "renderState state0 = Idle"
  by (simp add: renderState_def Idle_def selectedNodeId_def highlighted_def faded_def
      marked_def elements_state0)
     (simp add: state0_def core0_def)

lemma graph_on_tap_node [simp]:
  "allElements (on_tap_node p d s) = allElements s"
  "incidentEdges (on_tap_node p d s) n = incidentEdges s n"
  "neighbors (on_tap_node p d s) n = neighbors s n"
  by (simp_all add: allElements_def incidentEdges_def neighbors_def)

lemma graph_on_tap [simp]:
  "allElements (on_tap t s) = allElements s"
  "incidentEdges (on_tap t s) n = incidentEdges s n"
  "neighbors (on_tap t s) n = neighbors s n"
  by (simp_all add: allElements_def incidentEdges_def neighbors_def elements_on_tap)


lemma clicks_on_tap_node:
  "clicks (on_tap_node p d s) =
     (if cyRef s \<noteq> None \<and> onNodeClick p then clicks s @ [(nid d, d)] else clicks s)"
  by (simp add: on_tap_node_def Let_def split: option.splits)

lemma clicks_tap_B: "clicks (step props0 (Tap (OnNode nodeB)) state0) = [(''B'', nodeB)]"
  by (simp add: step_tap_B clicks_on_tap_node cyRef_state0 del: step.simps)
     (simp add: props0_def state0_def)

lemma selected_tap_B: "selectedNodeId (step props0 (Tap (OnNode nodeB)) state0) = Some ''B''"
  by (simp add: step_tap_B selectedNodeId_def selectedNode_on_tap_node cyRef_state0 del: step.simps)

lemma cyRef_tap_B:
  "cyRef (step props0 (Tap (OnNode nodeB)) state0) =
     Some (core0\<lparr>elements := tap_elements (Given ''B'') (elements core0)\<rparr>)"
  using cyRef_on_tap_node_Some [OF cyRef_state0, of props0 nodeB]
  by (simp add: step_tap_B del: step.simps)

lemma cyRef_dispatch_tap: "cyRef (dispatch_tap p t s) = None \<longleftrightarrow> cyRef s = None"
proof (cases "cyRef s")
  case None
  then show ?thesis by (simp add: dispatch_tap_def)
next
  case (Some cy)
  have "cyRef (on_tap t (case t of OnNode d \<Rightarrow> on_tap_node p d s | _ \<Rightarrow> s)) \<noteq> None"
    using Some by (cases t) (simp_all del: not_None_eq)
  with Some show ?thesis
    by (simp add: dispatch_tap_def del: not_None_eq)
qed

lemma cyRef_caught:
  assumes "\<And>t. x = Inr t \<Longrightarrow> (cyRef t = None \<longleftrightarrow> cyRef s = None)"
  shows "cyRef (caught s x) = None \<longleftrightarrow> cyRef s = None"
  using assms by (cases x) (simp_all add: caught_def)

lemma instance_kept_step: "cyRef (step p ev s) = None \<longleftrightarrow> cyRef s = None"
  by (cases ev)
     (simp_all add: cyRef_dispatch_tap cyRef_caught handleZoomIn_returns handleZoomOut_returns
       handleFit_returns handleReset_returns)

lemma no_instance_step: "cyRef s = None \<Longrightarrow> step p ev s = s"
proof (cases ev)
  case (Tap t)
  assume "cyRef s = None"
  with Tap show ?thesis by (simp add: dispatch_tap_def)
qed (simp_all add: caught_def handleZoomIn_none handleZoomOut_none handleFit_none handleReset_none)

lemma selection_has_instance_step:
  assumes "cyRef s = None \<longrightarrow> selectedNode s = None"
  shows "cyRef (step p ev s) = None \<longrightarrow> selectedNode (step p ev s) = None"
proof
  assume "cyRef (step p ev s) = None"
  then have none: "cyRef s = None"
    by (simp only: instance_kept_step)
  then have "step p ev s = s"
    by (rule no_instance_step)
  with assms none show "selectedNode (step p ev s) = None"
    by simp
qed

lemma selection_has_instance_run:
  "cyRef s = None \<longrightarrow> selectedNode s = None \<Longrightarrow>
     cyRef (run p evs s) = None \<longrightarrow> selectedNode (run p evs s) = None"
proof (induction evs arbitrary: s)
  case Nil
  then show ?case by simp
next
  case (Cons ev evs)
  have "cyRef (step p ev s) = None \<longrightarrow> selectedNode (step p ev s) = None"
    using Cons.prems by (rule selection_has_instance_step)
  then have "cyRef (run p evs (step p ev s)) = None \<longrightarrow> selectedNode (run p evs (step p ev s)) = None"
    by (rule Cons.IH)
  then show ?case by (simp del: step.simps)
qed

lemma selectedNode_useEffect: "useEffect p r s = Inr t \<Longrightarrow> selectedNode t = selectedNode s"
  by (auto simp: useEffect_def Let_def cleanup_def split: option.splits if_splits sum.splits)

lemma selection_has_instance_mount:
  assumes "mount p c r = Inr s"
  shows "cyRef (run p evs s) \<noteq> None \<or> selectedNode (run p evs s) = None"
proof -
  from assms have "selectedNode s = None"
    by (simp add: mount_def selectedNode_useEffect initial_def)
  then have "cyRef s = None \<longrightarrow> selectedNode s = None"
    by simp
  then have "cyRef (run p evs s) = None \<longrightarrow> selectedNode (run p evs s) = None"
    by (rule selection_has_instance_run)
  then show ?thesis by auto
qed

subsection \<open>Zoom\<close>

lemma crop_zoom_range:
  "minZoom cy \<le> maxZoom cy \<Longrightarrow> minZoom cy \<le> crop_zoom cy z \<and> crop_zoom cy z \<le> maxZoom cy"
  by (simp add: crop_zoom_def Let_def)

lemma bounds_set_zoom [simp]:
  "minZoom (set_zoom z cy) = minZoom cy" "maxZoom (set_zoom z cy) = maxZoom cy"
  "zoom (set_zoom z cy) = crop_zoom cy z" "destroyed (set_zoom z cy) = destroyed cy"
  by (simp_all add: set_zoom_def)

lemma bounds_center [simp]:
  "minZoom (center cy) = minZoom cy" "maxZoom (center cy) = maxZoom cy" "zoom (center cy) = zoom cy"
  "destroyed (center cy) = destroyed cy"
  by (simp_all add: center_def)

lemma bounds_fit [simp]:
  "minZoom (fit pad cy) = minZoom cy" "maxZoom (fit pad cy) = maxZoom cy"
  "destroyed (fit pad cy) = destroyed cy"
  by (simp_all add: fit_def Let_def)

lemma zoom_fit_range:
  "minZoom cy \<le> maxZoom cy \<Longrightarrow> minZoom cy \<le> zoom cy \<Longrightarrow> zoom cy \<le> maxZoom cy \<Longrightarrow>
     minZoom cy \<le> zoom (fit pad cy) \<and> zoom (fit pad cy) \<le> maxZoom cy"
  by (simp add: fit_def Let_def crop_zoom_range)

lemma zoom_bounded_handleZoomIn:
  "zoom_bounded s \<Longrightarrow> \<exists>t. handleZoomIn s = Inr t \<and> zoom_bounded t"
  by (auto simp: zoom_bounded_def handleZoomIn_def crop_zoom_def Let_def split: option.splits)

lemma zoom_bounded_handleZoomOut:
  "zoom_bounded s \<Longrightarrow> \<exists>t. handleZoomOut s = Inr t \<and> zoom_bounded t"
  by (auto simp: zoom_bounded_def handleZoomOut_def crop_zoom_def Let_def split: option.splits)

lemma zoom_bounded_handleFit:
  assumes "zoom_bounded s"
  shows "\<exists>t. handleFit s = Inr t \<and> zoom_bounded t"
proof (cases "cyRef s")
  case None
  with assms show ?thesis by (simp add: handleFit_def)
next
  case (Some cy)
  with assms have b: "\<not> destroyed cy" "minZoom cy = 0.3" "maxZoom cy = 3" "0.3 \<le> zoom cy" "zoom cy \<le> 3"
    by (simp_all add: zoom_bounded_def)
  then have "minZoom cy \<le> zoom (fit 50 cy) \<and> zoom (fit 50 cy) \<le> maxZoom cy"
    by (intro zoom_fit_range) simp_all
  with Some b show ?thesis
    by (simp add: zoom_bounded_def handleFit_def)
qed

lemma zoom_bounded_apply_op: "zoom_bounded s \<Longrightarrow> \<exists>t. apply_op x s = Inr t \<and> zoom_bounded t"
  by (cases x) (simp_all add: zoom_bounded_handleZoomIn zoom_bounded_handleZoomOut
      zoom_bounded_handleFit)

lemma zoom_bounded_apply_ops: "zoom_bounded s \<Longrightarrow> \<exists>t. apply_ops xs s = Inr t \<and> zoom_bounded t"
proof (induction xs arbitrary: s)
  case Nil
  then show ?case by simp
next
  case (Cons x xs)
  from zoom_bounded_apply_op [OF Cons.prems, of x]
  obtain t where t: "apply_op x s = Inr t" "zoom_bounded t"
    by blast
  from Cons.IH [OF t(2)] obtain u where "apply_ops xs t = Inr u" "zoom_bounded u"
    by blast
  with t(1) show ?case
    by (simp add: and_then_def)
qed

lemma zoom_bounded_cytoscape:
  "cytoscape js sz r = Inr cy \<Longrightarrow> zoom_bounded (s\<lparr>cyRef := Some cy, layoutRuns := n\<rparr>)"
  by (auto simp: zoom_bounded_def cytoscape_def run_layout_def crop_zoom_def Let_def
      split: sum.splits)

lemma cleanup_initial [simp]: "cleanup (initial c) = initial c"
  by (simp add: cleanup_def initial_def)

lemma zoom_bounded_mount: "mount p c r = Inr s \<Longrightarrow> zoom_bounded s"
  by (auto simp: mount_def useEffect_def Let_def zoom_bounded_cytoscape
      split: option.splits if_splits sum.splits)
     (simp_all add: zoom_bounded_def initial_def)

lemma zoomFactor_handleZoomIn:
  "cyRef s = Some cy \<Longrightarrow> \<not> destroyed cy \<Longrightarrow>
     map_sum id zoomFactor (handleZoomIn s) = Inr (Some (crop_zoom cy (zoom cy * 1.2)))"
  by (simp add: zoomFactor_def handleZoomIn_def)

lemma zoomFactor_handleZoomOut:
  "cyRef s = Some cy \<Longrightarrow> \<not> destroyed cy \<Longrightarrow>
     map_sum id zoomFactor (handleZoomOut s) = Inr (Some (crop_zoom cy (zoom cy * 0.8)))"
  by (simp add: zoomFactor_def handleZoomOut_def)

lemma zoomIn_bounded:
  assumes "zoom_bounded s" and "zoomFactor s = Some z"
  shows "\<exists>t. handleZoomIn s = Inr t \<and> zoom_bounded t \<and> zoomFactor t = Some (min 3 (z * 1.2))"
proof -
  from assms(2) obtain cy where cy: "cyRef s = Some cy" "zoom cy = z"
    by (auto simp: zoomFactor_def)
  with assms(1) have b: "\<not> destroyed cy" "minZoom cy = 0.3" "maxZoom cy = 3" "0.3 \<le> z" "z \<le> 3"
    by (simp_all add: zoom_bounded_def)
  have "crop_zoom cy (z * 1.2) = min 3 (z * 1.2)"
    using b by (simp add: crop_zoom_def Let_def min_def)
  moreover from zoom_bounded_handleZoomIn [OF assms(1)]
  obtain t where t: "handleZoomIn s = Inr t" "zoom_bounded t"
    by blast
  ultimately show ?thesis
    using zoomFactor_handleZoomIn [OF cy(1) b(1)] cy(2) by simp
qed

lemma zoomOut_bounded:
  assumes "zoom_bounded s" and "zoomFactor s = Some z"
  shows "\<exists>t. handleZoomOut s = Inr t \<and> zoom_bounded t \<and> zoomFactor t = Some (max 0.3 (z * 0.8))"
proof -
  from assms(2) obtain cy where cy: "cyRef s = Some cy" "zoom cy = z"
    by (auto simp: zoomFactor_def)
  with assms(1) have b: "\<not> destroyed cy" "minZoom cy = 0.3" "maxZoom cy = 3" "0.3 \<le> z" "z \<le> 3"
    by (simp_all add: zoom_bounded_def)
  have "crop_zoom cy (z * 0.8) = max 0.3 (z * 0.8)"
    using b by (simp add: crop_zoom_def Let_def max_def)
  moreover from zoom_bounded_handleZoomOut [OF assms(1)]
  obtain t where t: "handleZoomOut s = Inr t" "zoom_bounded t"
    by blast
  ultimately show ?thesis
    using zoomFactor_handleZoomOut [OF cy(1) b(1)] cy(2) by simp
qed

lemma zoomIn_replicate:
  assumes "zoom_bounded s" and "zoomFactor s = Some z"
  shows "\<exists>t. apply_ops (replicate n ZoomIn) s = Inr t \<and>
             zoomFactor t = Some (((\<lambda>z. min 3 (z * 1.2)) ^^ n) z)"
  using assms
proof (induction n arbitrary: s z)
  case 0
  then show ?case by simp
next
  case (Suc n)
  from zoomIn_bounded [OF Suc.prems]
  obtain t where t: "handleZoomIn s = Inr t" "zoom_bounded t" "zoomFactor t = Some (min 3 (z * 1.2))"
    by blast
  from Suc.IH [OF t(2) t(3)]
  obtain u where u: "apply_ops (replicate n ZoomIn) t = Inr u"
    "zoomFactor u = Some (((\<lambda>z. min 3 (z * 1.2)) ^^ n) (min 3 (z * 1.2)))"
    by blast
  have eq: "((\<lambda>z::real. min 3 (z * 1.2)) ^^ Suc n) z = ((\<lambda>z. min 3 (z * 1.2)) ^^ n) (min 3 (z * 1.2))"
    by (simp only: funpow_Suc_right o_apply)
  from t(1) u(1) have "apply_ops (replicate (Suc n) ZoomIn) s = Inr u"
    by (simp add: and_then_def)
  with u(2) show ?case
    unfolding eq by blast
qed

lemma zoom_bounded_state0: "zoom_bounded state0"
  by (simp add: zoom_bounded_def state0_def core0_def)

lemma zoomFactor_state0: "zoomFactor state0 = Some 1"
  by (simp add: zoomFactor_def state0_def core0_def)

lemma zoomFactor_zoomIn7: "map_sum id zoomFactor (apply_ops zoomIn7 state0) = Inr (Some 3)"
proof -
  from zoomIn_replicate [OF zoom_bounded_state0 zoomFactor_state0, of 7]
  obtain t where t: "apply_ops (replicate 7 ZoomIn) state0 = Inr t"
    "zoomFactor t = Some (((\<lambda>z. min 3 (z * 1.2)) ^^ 7) 1)"
    by blast
  have "((\<lambda>z::real. min 3 (z * 1.2)) ^^ 7) 1 = 3"
    by (simp add: eval_nat_numeral)
  with t show ?thesis
    by (simp add: zoomIn7_def)
qed

subsection \<open>The viewport after one and after two clicks\<close>

lemma viewport_handleZoomIn:
  "cyRef s = Some cy \<Longrightarrow> \<not> destroyed cy \<Longrightarrow>
     map_sum id viewport (handleZoomIn s) =
       Inr (Some (crop_zoom cy (zoom cy * 1.2),
                  if elements cy = [] then pan cy else center_pan cy (crop_zoom cy (zoom cy * 1.2))))"
  by (simp add: viewport_def handleZoomIn_def center_def set_zoom_def center_pan_def)

lemma viewport_handleZoomOut:
  "cyRef s = Some cy \<Longrightarrow> \<not> destroyed cy \<Longrightarrow>
     map_sum id viewport (handleZoomOut s) =
       Inr (Some (crop_zoom cy (zoom cy * 0.8),
                  if elements cy = [] then pan cy else center_pan cy (crop_zoom cy (zoom cy * 0.8))))"
  by (simp add: viewport_def handleZoomOut_def center_def set_zoom_def center_pan_def)

lemma crop_zoom_center_set_zoom [simp]:
  "crop_zoom (center (set_zoom z cy)) y = crop_zoom cy y"
  by (simp add: crop_zoom_def Let_def)

lemma center_pan_center_set_zoom [simp]:
  "center_pan (center (set_zoom z cy)) y = center_pan cy y"
  by (simp add: center_pan_def center_def set_zoom_def)

lemma elements_center_set_zoom [simp]: "elements (center (set_zoom z cy)) = elements cy"
  by simp

lemma pan_center_set_zoom:
  "pan (center (set_zoom z cy)) = (if elements cy = [] then pan cy else center_pan cy (crop_zoom cy z))"
  by (simp add: center_def set_zoom_def center_pan_def)

lemma viewport_handleZoomIn_twice:
  assumes "cyRef s = Some cy" and "\<not> destroyed cy"
  shows "map_sum id viewport (and_then (handleZoomIn s) handleZoomIn) =
           Inr (Some (crop_zoom cy (crop_zoom cy (zoom cy * 1.2) * 1.2),
                      if elements cy = [] then pan cy
                      else center_pan cy (crop_zoom cy (crop_zoom cy (zoom cy * 1.2) * 1.2))))"
proof -
  let ?t = "s\<lparr>cyRef := Some (center (set_zoom (zoom cy * 1.2) cy))\<rparr>"
  have one: "handleZoomIn s = Inr ?t"
    using assms by (rule handleZoomIn_live)
  have "map_sum id viewport (handleZoomIn ?t) =
      Inr (Some (crop_zoom (center (set_zoom (zoom cy * 1.2) cy)) (zoom (center (set_zoom (zoom cy * 1.2) cy)) * 1.2),
                 if elements (center (set_zoom (zoom cy * 1.2) cy)) = []
                 then pan (center (set_zoom (zoom cy * 1.2) cy))
                 else center_pan (center (set_zoom (zoom cy * 1.2) cy))
                        (crop_zoom (center (set_zoom (zoom cy * 1.2) cy))
                           (zoom (center (set_zoom (zoom cy * 1.2) cy)) * 1.2))))"
    using assms(2) by (intro viewport_handleZoomIn) simp_all
  then show ?thesis
    by (simp add: one and_then_def pan_center_set_zoom)
qed

lemma viewport_handleZoomOut_twice:
  assumes "cyRef s = Some cy" and "\<not> destroyed cy"
  shows "map_sum id viewport (and_then (handleZoomOut s) handleZoomOut) =
           Inr (Some (crop_zoom cy (crop_zoom cy (zoom cy * 0.8) * 0.8),
                      if elements cy = [] then pan cy
                      else center_pan cy (crop_zoom cy (crop_zoom cy (zoom cy * 0.8) * 0.8))))"
proof -
  let ?t = "s\<lparr>cyRef := Some (center (set_zoom (zoom cy * 0.8) cy))\<rparr>"
  have one: "handleZoomOut s = Inr ?t"
    using assms by (rule handleZoomOut_live)
  have "map_sum id viewport (handleZoomOut ?t) =
      Inr (Some (crop_zoom (center (set_zoom (zoom cy * 0.8) cy)) (zoom (center (set_zoom (zoom cy * 0.8) cy)) * 0.8),
                 if elements (center (set_zoom (zoom cy * 0.8) cy)) = []
                 then pan (center (set_zoom (zoom cy * 0.8) cy))
                 else center_pan (center (set_zoom (zoom cy * 0.8) cy))
                        (crop_zoom (center (set_zoom (zoom cy * 0.8) cy))
                           (zoom (center (set_zoom (zoom cy * 0.8) cy)) * 0.8))))"
    using assms(2) by (intro viewport_handleZoomOut) simp_all
  then show ?thesis
    by (simp add: one and_then_def pan_center_set_zoom)
qed

lemma zoomIn_twice_destroyed:
  "cyRef s = Some cy \<Longrightarrow> destroyed cy \<Longrightarrow>
     map_sum id viewport (and_then (handleZoomIn s) handleZoomIn) = map_sum id viewport (handleZoomIn s)"
  by (simp add: handleZoomIn_destroyed and_then_def)

lemma zoomOut_twice_destroyed:
  "cyRef s = Some cy \<Longrightarrow> destroyed cy \<Longrightarrow>
     map_sum id viewport (and_then (handleZoomOut s) handleZoomOut) = map_sum id viewport (handleZoomOut s)"
  by (simp add: handleZoomOut_destroyed and_then_def)

lemma zoomIn_twice:
  assumes "cyRef s = Some cy" and "minZoom cy = 0.3" and "maxZoom cy = 3"
    and "0.3 \<le> zoom cy" and "zoom cy \<le> 3"
  shows "map_sum id viewport (and_then (handleZoomIn s) handleZoomIn) =
           map_sum id viewport (handleZoomIn s) \<longleftrightarrow> destroyed cy \<or> 3 \<le> zoom cy * 1.2"
proof (cases "destroyed cy")
  case True
  with assms(1) show ?thesis
    by (simp add: zoomIn_twice_destroyed)
next
  case False
  let ?z1 = "crop_zoom cy (zoom cy * 1.2)"
  have z1: "?z1 = min 3 (zoom cy * 1.2)"
    using assms by (simp add: crop_zoom_def Let_def min_def)
  have z2: "crop_zoom cy (?z1 * 1.2) = min 3 (?z1 * 1.2)"
    using assms z1 by (simp add: crop_zoom_def Let_def min_def)
  have one: "map_sum id viewport (handleZoomIn s) =
      Inr (Some (?z1, if elements cy = [] then pan cy else center_pan cy ?z1))"
    using assms(1) False by (rule viewport_handleZoomIn)
  have two: "map_sum id viewport (and_then (handleZoomIn s) handleZoomIn) =
      Inr (Some (crop_zoom cy (?z1 * 1.2),
                 if elements cy = [] then pan cy else center_pan cy (crop_zoom cy (?z1 * 1.2))))"
    using assms(1) False by (rule viewport_handleZoomIn_twice)
  have "crop_zoom cy (?z1 * 1.2) = ?z1 \<longleftrightarrow> 3 \<le> zoom cy * 1.2"
    unfolding z2 unfolding z1 using assms(4) by (auto simp: min_def)
  then show ?thesis
    unfolding one two using False by auto
qed

lemma zoomOut_twice:
  assumes "cyRef s = Some cy" and "minZoom cy = 0.3" and "maxZoom cy = 3"
    and "0.3 \<le> zoom cy" and "zoom cy \<le> 3"
  shows "map_sum id viewport (and_then (handleZoomOut s) handleZoomOut) =
           map_sum id viewport (handleZoomOut s) \<longleftrightarrow> destroyed cy \<or> zoom cy * 0.8 \<le> 0.3"
proof (cases "destroyed cy")
  case True
  with assms(1) show ?thesis
    by (simp add: zoomOut_twice_destroyed)
next
  case False
  let ?z1 = "crop_zoom cy (zoom cy * 0.8)"
  have z1: "?z1 = max 0.3 (zoom cy * 0.8)"
    using assms by (simp add: crop_zoom_def Let_def max_def)
  have z2: "crop_zoom cy (?z1 * 0.8) = max 0.3 (?z1 * 0.8)"
    using assms z1 by (simp add: crop_zoom_def Let_def max_def)
  have one: "map_sum id viewport (handleZoomOut s) =
      Inr (Some (?z1, if elements cy = [] then pan cy else center_pan cy ?z1))"
    using assms(1) False by (rule viewport_handleZoomOut)
  have two: "map_sum id viewport (and_then (handleZoomOut s) handleZoomOut) =
      Inr (Some (crop_zoom cy (?z1 * 0.8),
                 if elements cy = [] then pan cy else center_pan cy (crop_zoom cy (?z1 * 0.8))))"
    using assms(1) False by (rule viewport_handleZoomOut_twice)
  have "crop_zoom cy (?z1 * 0.8) = ?z1 \<longleftrightarrow> zoom cy * 0.8 \<le> 0.3"
    unfolding z2 unfolding z1 using assms(4) by (auto simp: max_def)
  then show ?thesis
    unfolding one two using False by auto
qed

lemma fit_twice: "fit pad (fit pad cy) = fit pad cy"
proof -
  define c where "c = (elements cy \<noteq> [] \<and> cwidth cy > 0 \<and> cheight cy > 0 \<and>
      bx2 (bb cy) - bx1 (bb cy) > 0 \<and> by2 (bb cy) - by1 (bb cy) > 0)"
  define z where "z = crop_zoom cy (min ((cwidth cy - 2 * pad) / (bx2 (bb cy) - bx1 (bb cy)))
      ((cheight cy - 2 * pad) / (by2 (bb cy) - by1 (bb cy))))"
  have one: "fit pad cy = (if c then cy\<lparr>zoom := z, pan := center_pan cy z\<rparr> else cy)"
    by (simp add: fit_def Let_def c_def z_def)
  show ?thesis
  proof (cases c)
    case False
    then show ?thesis by (simp add: one)
  next
    case True
    let ?cy = "cy\<lparr>zoom := z, pan := center_pan cy z\<rparr>"
    have "fit pad ?cy = ?cy\<lparr>zoom := z, pan := center_pan cy z\<rparr>"
      using True by (simp add: fit_def Let_def c_def z_def crop_zoom_def center_pan_def)
    then show ?thesis
      using True by (simp add: one)
  qed
qed

lemma handleFit_twice: "and_then (handleFit s) handleFit = handleFit s"
proof (cases "cyRef s")
  case None
  then show ?thesis by (simp add: handleFit_none and_then_def)
next
  case (Some cy)
  show ?thesis
  proof (cases "destroyed cy")
    case True
    with Some show ?thesis by (simp add: handleFit_destroyed and_then_def)
  next
    case False
    with Some have "handleFit s = Inr (s\<lparr>cyRef := Some (fit 50 cy)\<rparr>)"
      by (rule handleFit_live)
    moreover have "handleFit (s\<lparr>cyRef := Some (fit 50 cy)\<rparr>) = Inr (s\<lparr>cyRef := Some (fit 50 cy)\<rparr>)"
      using False by (simp add: handleFit_def fit_twice)
    ultimately show ?thesis
      by (simp add: and_then_def)
  qed
qed

subsection \<open>The viewport handlers and the selection\<close>

lemma renderState_same:
  "instance_elements s' = instance_elements s \<Longrightarrow> selectedNode s' = selectedNode s \<Longrightarrow>
     renderState s' = renderState s"
  by (simp add: renderState_def selectedNodeId_def highlighted_def faded_def)

lemma renderState_handleZoomIn: "handleZoomIn s = Inr t \<Longrightarrow> renderState t = renderState s"
  by (rule renderState_same) (simp_all add: handleZoomIn_returns)

lemma renderState_handleZoomOut: "handleZoomOut s = Inr t \<Longrightarrow> renderState t = renderState s"
  by (rule renderState_same) (simp_all add: handleZoomOut_returns)

lemma renderState_handleFit: "handleFit s = Inr t \<Longrightarrow> renderState t = renderState s"
  by (rule renderState_same) (simp_all add: handleFit_returns)

lemma renderState_caught:
  assumes "\<And>t. x = Inr t \<Longrightarrow> renderState t = renderState s"
  shows "renderState (caught s x) = renderState s"
  using assms by (cases x) (simp_all add: caught_def)

lemma renderState_click_zoomIn: "renderState (step p ClickZoomIn s) = renderState s"
  by (simp add: renderState_caught renderState_handleZoomIn)

lemma renderState_click_zoomOut: "renderState (step p ClickZoomOut s) = renderState s"
  by (simp add: renderState_caught renderState_handleZoomOut)

lemma renderState_click_fit: "renderState (step p ClickFit s) = renderState s"
  by (simp add: renderState_caught renderState_handleFit)

lemma zoomFactor_handleZoomIn_any:
  "map_sum id zoomFactor (handleZoomIn s) =
     (case cyRef s of
        None \<Rightarrow> Inr None
      | Some cy \<Rightarrow> if destroyed cy then Inl TypeError else Inr (Some (crop_zoom cy (zoom cy * 1.2))))"
  by (cases "cyRef s") (simp_all add: zoomFactor_def handleZoomIn_def)

lemma zoomFactor_handleZoomOut_any:
  "map_sum id zoomFactor (handleZoomOut s) =
     (case cyRef s of
        None \<Rightarrow> Inr None
      | Some cy \<Rightarrow> if destroyed cy then Inl TypeError else Inr (Some (crop_zoom cy (zoom cy * 0.8))))"
  by (cases "cyRef s") (simp_all add: zoomFactor_def handleZoomOut_def)

lemma crop_zoom_elements [simp]: "crop_zoom (cy\<lparr>elements := els\<rparr>) z = crop_zoom cy z"
  by (simp add: crop_zoom_def Let_def)

lemma zoomIn_after_tap_node:
  "map_sum id zoomFactor (handleZoomIn (on_tap_node p d s)) = map_sum id zoomFactor (handleZoomIn s)"
  by (cases "cyRef s")
     (simp add: on_tap_node_def, simp add: zoomFactor_handleZoomIn_any cyRef_on_tap_node_Some)

lemma zoomOut_after_tap_node:
  "map_sum id zoomFactor (handleZoomOut (on_tap_node p d s)) = map_sum id zoomFactor (handleZoomOut s)"
  by (cases "cyRef s")
     (simp add: on_tap_node_def, simp add: zoomFactor_handleZoomOut_any cyRef_on_tap_node_Some)

lemma zoomIn_after_tap:
  "map_sum id zoomFactor (handleZoomIn (on_tap t s)) = map_sum id zoomFactor (handleZoomIn s)"
  by (cases "cyRef s") (simp_all add: zoomFactor_handleZoomIn_any on_tap_def)

lemma zoomOut_after_tap:
  "map_sum id zoomFactor (handleZoomOut (on_tap t s)) = map_sum id zoomFactor (handleZoomOut s)"
  by (cases "cyRef s") (simp_all add: zoomFactor_handleZoomOut_any on_tap_def)

lemma destroyed_core0: "\<not> destroyed core0"
  by (simp add: core0_def)

lemma viewport_zoomIn_state0: "map_sum id viewport (handleZoomIn state0) = Inr (Some (6 / 5, 160, 120))"
  by (simp add: viewport_handleZoomIn [OF cyRef_state0 destroyed_core0])
     (simp add: core0_def crop_zoom_def center_pan_def)

lemma viewport_zoomIn2_state0:
  "map_sum id viewport (and_then (handleZoomIn state0) handleZoomIn) = Inr (Some (36 / 25, 112, 84))"
  by (simp add: viewport_handleZoomIn_twice [OF cyRef_state0 destroyed_core0])
     (simp add: core0_def crop_zoom_def center_pan_def)

subsection \<open>The element mapping\<close>







subsection \<open>Creating the elements\<close>

lemma ident_node_ele [simp]: "ident (node_ele j) = Given (nid (jdata j))"
  by (simp add: node_ele_def)

lemma ident_edge_ele [simp]: "ident (edge_ele k d) = edge_ident k d"
  by (simp add: edge_ele_def)






lemma has_node_append: "has_node els i \<Longrightarrow> has_node (els @ xs) i"
  by (auto simp: has_node_def)





lemma idents_map_node_ele:
  "map ident (map node_ele (map (\<lambda>n. \<lparr>jdata = n, jclasses = f n\<rparr>) ns)) = map (\<lambda>n. Given (nid n)) ns"
  by simp









subsection \<open>The instance the constructor builds\<close>






lemma elements_cytoscape:
  "cytoscape js sz r = Inr cy \<Longrightarrow> create_elements js = Inr (elements cy)"
  by (auto simp: cytoscape_def run_layout_def split: sum.splits)


lemma initial_fields [simp]:
  "containerRef (initial c) = c" "cyRef (initial c) = None" "selectedNode (initial c) = None"
  "clicks (initial c) = []" "layoutRuns (initial c) = 0"
  by (simp_all add: initial_def)




lemma add_nodes_distinct:
  "distinct (map ident els) \<Longrightarrow> add_nodes js els = Inr res \<Longrightarrow> distinct (map ident res)"
proof (induction js arbitrary: els)
  case Nil
  then show ?case by simp
next
  case (Cons j js)
  show ?case
  proof (cases "Given (nid (jdata j)) \<in> ident ` set els")
    case True
    with Cons.prems(2) have "add_nodes js els = Inr res"
      by simp
    with Cons.prems(1) show ?thesis by (rule Cons.IH)
  next
    case False
    with Cons.prems(2) have rest: "add_nodes js (els @ [node_ele j]) = Inr res"
      by (simp split: if_splits)
    from False Cons.prems(1) have "distinct (map ident (els @ [node_ele j]))"
      by simp
    then show ?thesis
      using rest by (rule Cons.IH)
  qed
qed

lemma add_edges_distinct:
  "distinct (map ident els) \<Longrightarrow> add_edges k ds els = Inr res \<Longrightarrow> distinct (map ident res)"
proof (induction ds arbitrary: k els)
  case Nil
  then show ?case by simp
next
  case (Cons d ds)
  show ?case
  proof (cases "edge_ident k d \<in> ident ` set els")
    case True
    with Cons.prems(2) have "add_edges (Suc k) ds els = Inr res"
      by simp
    with Cons.prems(1) show ?thesis by (rule Cons.IH)
  next
    case False
    with Cons.prems(2) have rest: "add_edges (Suc k) ds (els @ [edge_ele k d]) = Inr res"
      by (simp split: if_splits)
    from False Cons.prems(1) have "distinct (map ident (els @ [edge_ele k d]))"
      by simp
    then show ?thesis
      using rest by (rule Cons.IH)
  qed
qed

lemma cytoscape_distinct_ids: "cytoscape js sz r = Inr cy \<Longrightarrow> distinct (map ident (elements cy))"
proof -
  assume "cytoscape js sz r = Inr cy"
  then have "create_elements js = Inr (elements cy)"
    by (rule elements_cytoscape)
  then obtain nds where nds: "add_nodes (fst js) [] = Inr nds"
    and eds: "add_edges 0 (snd js) nds = Inr (elements cy)"
    by (auto simp: create_elements_def split: sum.splits)
  have "distinct (map ident nds)"
    using add_nodes_distinct [OF _ nds] by simp
  then show ?thesis
    using eds by (rule add_edges_distinct)
qed

lemma add_edges_endpoints:
  assumes "add_edges k ds els = Inr res"
    and "\<forall>e \<in> set els. \<forall>d. body e = EdgeBody d \<longrightarrow>
           has_node els (source d) \<and> has_node els (target d)"
  shows "\<forall>e \<in> set res. \<forall>d. body e = EdgeBody d \<longrightarrow>
           has_node res (source d) \<and> has_node res (target d)"
  using assms
proof (induction ds arbitrary: k els)
  case Nil
  then show ?case by simp
next
  case (Cons d ds)
  show ?case
  proof (cases "edge_ident k d \<in> ident ` set els")
    case True
    with Cons.prems(1) have "add_edges (Suc k) ds els = Inr res"
      by simp
    then show ?thesis
      using Cons.prems(2) by (rule Cons.IH)
  next
    case False
    with Cons.prems(1) have rest: "add_edges (Suc k) ds (els @ [edge_ele k d]) = Inr res"
      and ends: "has_node els (source d) \<and> has_node els (target d)"
      by (simp_all split: if_splits)
    have "\<forall>e \<in> set (els @ [edge_ele k d]). \<forall>d'. body e = EdgeBody d' \<longrightarrow>
        has_node (els @ [edge_ele k d]) (source d') \<and>
        has_node (els @ [edge_ele k d]) (target d')"
    proof (intro ballI allI impI)
      fix e d'
      assume e: "e \<in> set (els @ [edge_ele k d])" and b: "body e = EdgeBody d'"
      have "has_node els (source d') \<and> has_node els (target d')"
      proof (cases "e \<in> set els")
        case True
        with Cons.prems(2) b show ?thesis by blast
      next
        case False
        with e have "e = edge_ele k d" by simp
        with b have "d' = d" by (simp add: edge_ele_def)
        with ends show ?thesis by simp
      qed
      then show "has_node (els @ [edge_ele k d]) (source d') \<and>
          has_node (els @ [edge_ele k d]) (target d')"
        by (simp add: has_node_append)
    qed
    with rest show ?thesis
      by (rule Cons.IH)
  qed
qed

lemma add_nodes_are_nodes:
  "\<forall>e \<in> set els. is_node e \<Longrightarrow> add_nodes js els = Inr res \<Longrightarrow> \<forall>e \<in> set res. is_node e"
proof (induction js arbitrary: els)
  case Nil
  then show ?case by simp
next
  case (Cons j js)
  show ?case
  proof (cases "Given (nid (jdata j)) \<in> ident ` set els")
    case True
    with Cons.prems(2) have "add_nodes js els = Inr res"
      by simp
    with Cons.prems(1) show ?thesis by (rule Cons.IH)
  next
    case False
    with Cons.prems(2) have rest: "add_nodes js (els @ [node_ele j]) = Inr res"
      by (simp split: if_splits)
    from Cons.prems(1) have "\<forall>e \<in> set (els @ [node_ele j]). is_node e"
      by (simp add: is_node_def node_ele_def)
    then show ?thesis
      using rest by (rule Cons.IH)
  qed
qed

lemma cytoscape_no_dangling_edge:
  assumes "cytoscape js sz r = Inr cy" and "e \<in> set (elements cy)" and "body e = EdgeBody d"
  shows "has_node (elements cy) (source d) \<and> has_node (elements cy) (target d)"
proof -
  from assms(1) have "create_elements js = Inr (elements cy)"
    by (rule elements_cytoscape)
  then obtain nds where nds: "add_nodes (fst js) [] = Inr nds"
    and eds: "add_edges 0 (snd js) nds = Inr (elements cy)"
    by (auto simp: create_elements_def split: sum.splits)
  have "\<forall>e \<in> set nds. is_node e"
    using add_nodes_are_nodes [OF _ nds] by simp
  then have "\<forall>e \<in> set nds. \<forall>d. body e = EdgeBody d \<longrightarrow>
      has_node nds (source d) \<and> has_node nds (target d)"
    by (auto simp: is_node_def)
  with eds have "\<forall>e \<in> set (elements cy). \<forall>d. body e = EdgeBody d \<longrightarrow>
      has_node (elements cy) (source d) \<and> has_node (elements cy) (target d)"
    by (rule add_edges_endpoints)
  with assms(2,3) show ?thesis
    by blast
qed

subsection \<open>The node tap on the concrete graph\<close>

text \<open>
  Tapping \<open>A\<close> highlights \<open>A\<close>, \<open>B\<close> and \<open>A \<rightarrow> B\<close> and fades the rest, as in the
  specification's scenario; tapping \<open>D\<close>, which has no edge, fades everything but
  \<open>D\<close> and highlights nothing.
\<close>

lemma connected_core0_A:
  "ident ` set (connectedEdges (elements core0) (Given ''A'')) = {Given ''AB''}"
  "ident ` set (connectedNodes (elements core0) (connectedEdges (elements core0) (Given ''A''))) =
     {Given ''A'', Given ''B''}"
  by (simp_all add: connectedNodes_def connectedEdges_def core0_def touches_def is_node_def
      graph0_defs)

lemma connected_core0_D:
  "ident ` set (connectedEdges (elements core0) (Given ''D'')) = {}"
  "ident ` set (connectedNodes (elements core0) (connectedEdges (elements core0) (Given ''D''))) = {}"
  by (simp_all add: connectedNodes_def connectedEdges_def core0_def touches_def is_node_def
      graph0_defs)

lemma tap_A_core0:
  "tap_elements (Given ''A'') (elements core0) =
     [\<lparr>ident = Given ''A'', body = NodeBody nodeA, classes = [''user'', ''highlighted'']\<rparr>,
      \<lparr>ident = Given ''B'', body = NodeBody nodeB, classes = [''project'', ''highlighted'']\<rparr>,
      \<lparr>ident = Given ''C'', body = NodeBody nodeC, classes = [''skill'', ''faded'']\<rparr>,
      \<lparr>ident = Given ''D'', body = NodeBody nodeD, classes = [''education'', ''faded'']\<rparr>,
      \<lparr>ident = Given ''AB'', body = EdgeBody edgeAB, classes = [''highlighted'']\<rparr>,
      \<lparr>ident = Given ''BC'', body = EdgeBody edgeBC, classes = [''faded'']\<rparr>]"
  unfolding tap_elements_map connected_core0_A
  by (simp add: core0_def tap_ele_def remove_classes_def add_class_def marks_def)

lemma tap_D_core0:
  "tap_elements (Given ''D'') (elements core0) =
     [\<lparr>ident = Given ''A'', body = NodeBody nodeA, classes = [''user'', ''faded'']\<rparr>,
      \<lparr>ident = Given ''B'', body = NodeBody nodeB, classes = [''project'', ''faded'']\<rparr>,
      \<lparr>ident = Given ''C'', body = NodeBody nodeC, classes = [''skill'', ''faded'']\<rparr>,
      \<lparr>ident = Given ''D'', body = NodeBody nodeD, classes = [''education'']\<rparr>,
      \<lparr>ident = Given ''AB'', body = EdgeBody edgeAB, classes = [''faded'']\<rparr>,
      \<lparr>ident = Given ''BC'', body = EdgeBody edgeBC, classes = [''faded'']\<rparr>]"
  unfolding tap_elements_map connected_core0_D
  by (simp add: core0_def tap_ele_def remove_classes_def add_class_def marks_def)

subsection \<open>Node types that name a mark\<close>






subsection \<open>The instance after the node list became empty\<close>

text \<open>
  An effect run with an empty node list runs the cleanup of the run before it and
  returns: the instance is destroyed and \<^verbatim>\<open>cyRef.current\<close> still refers to it.
\<close>

lemma useEffect_empty: "nodes p = [] \<Longrightarrow> useEffect p r s = Inr (cleanup s)"
  by (simp add: useEffect_def Let_def split: option.splits)

lemma nodes_emptyProps: "nodes emptyProps = []"
  by (simp add: emptyProps_def)

lemma interactive_emptyProps: "interactive emptyProps"
  by (simp add: emptyProps_def)

lemma cleanup_state0: "cleanup state0 = stale0"
  by (simp add: cleanup_def stale0_def state0_def)

lemma cyRef_stale0: "cyRef stale0 = Some (core0\<lparr>destroyed := True\<rparr>)"
  by (simp add: stale0_def)

lemma cyRef_selectedB:
  "cyRef selectedB = Some (core0\<lparr>elements := tap_elements (Given ''B'') (elements core0)\<rparr>)"
  using cyRef_tap_B by (simp add: selectedB_def del: step.simps)

lemma selectedNode_selectedB: "selectedNode selectedB = Some nodeB"
  by (simp add: selectedB_def step_tap_B selectedNode_on_tap_node cyRef_state0 del: step.simps)

lemma cyRef_staleB:
  "cyRef staleB =
     Some (core0\<lparr>elements := tap_elements (Given ''B'') (elements core0), destroyed := True\<rparr>)"
  by (simp add: staleB_def cleanup_def cyRef_selectedB)

lemma selectedNode_staleB: "selectedNode staleB = Some nodeB"
  by (simp add: staleB_def cleanup_def cyRef_selectedB selectedNode_selectedB)

lemma handleReset_staleB: "handleReset r staleB = Inl TypeError"
  by (rule handleReset_destroyed [OF cyRef_staleB]) simp

lemma click_reset_staleB: "step emptyProps (ClickReset r) staleB = staleB"
  by (simp add: interactive_emptyProps handleReset_staleB caught_def)

lemma handlers_stale0:
  "handleZoomIn stale0 = Inl TypeError" "handleZoomOut stale0 = Inl TypeError"
  "handleFit stale0 = Inl TypeError" "handleReset r stale0 = Inl TypeError"
  by (simp_all add: handleZoomIn_def handleZoomOut_def handleFit_def handleReset_def cyRef_stale0)

subsection \<open>The component without an instance, and the reset of a live instance\<close>

lemma no_instance_apply_ops: "cyRef s = None \<Longrightarrow> apply_ops ops s = Inr s"
proof (induction ops)
  case Nil
  then show ?case by simp
next
  case (Cons x xs)
  then have "apply_op x s = Inr s"
    by (cases x) (simp_all add: handleZoomIn_none handleZoomOut_none handleFit_none)
  with Cons show ?case
    by (simp add: and_then_def)
qed

lemma no_instance_run: "cyRef s = None \<Longrightarrow> run p evs s = s"
  by (induction evs) (simp_all add: no_instance_step del: step.simps)

lemma empty_graph_mounted:
  assumes "nodes p = []"
  shows "mount p c r = Inr (initial c)" and "cyRef (initial c) = None"
    and "layoutRuns (initial c) = 0" and "empty_state_shown (render p (initial c))"
    and "handleZoomIn (initial c) = Inr (initial c)" and "handleZoomOut (initial c) = Inr (initial c)"
    and "handleFit (initial c) = Inr (initial c)" and "handleReset r' (initial c) = Inr (initial c)"
    and "apply_ops ops (initial c) = Inr (initial c)" and "run p evs (initial c) = initial c"
  using assms
  by (simp_all add: mount_def useEffect_empty render_def handleZoomIn_none handleZoomOut_none
      handleFit_none handleReset_none no_instance_apply_ops no_instance_run)

lemma reset_live_instance:
  assumes "cyRef s = Some cy" and "\<not> destroyed cy"
  shows "\<exists>t. handleReset r s = Inr t \<and> renderState t = Idle \<and>
             cyRef t = Some (run_layout r (cy\<lparr>elements := removeClass marks (elements cy)\<rparr>)) \<and>
             instance_elements t = removeClass marks (elements cy) \<and>
             (\<forall>e \<in> set (instance_elements t).
                 ''highlighted'' \<notin> set (classes e) \<and> ''faded'' \<notin> set (classes e)) \<and>
             selectedNode t = None \<and> layoutRuns t = Suc (layoutRuns s) \<and> clicks t = clicks s"
proof -
  let ?t = "s\<lparr>cyRef := Some (run_layout r (cy\<lparr>elements := removeClass marks (elements cy)\<rparr>)),
               layoutRuns := Suc (layoutRuns s), selectedNode := None\<rparr>"
  have t: "handleReset r s = Inr ?t"
    using assms by (rule handleReset_live)
  then have "renderState ?t = Idle"
    using assms(1) by (simp add: renderState_handleReset)
  moreover have els: "instance_elements ?t = removeClass marks (elements cy)"
    by (simp add: instance_elements_def)
  moreover have "\<forall>e \<in> set (instance_elements ?t).
      ''highlighted'' \<notin> set (classes e) \<and> ''faded'' \<notin> set (classes e)"
    unfolding els using no_marks_removeClass by blast
  ultimately show ?thesis
    using t by simp
qed

section \<open>The claims\<close>

text \<open>
  C1 (as amended). For every graph and every node \<open>n\<close> in it, the tap on \<open>n\<close> selects
  \<open>n\<close> and leaves \<open>highlighted = incidentEdges(n) \<union> neighbors(n)\<close> and
  \<open>faded = allElements - ({n} \<union> incidentEdges(n) \<union> neighbors(n))\<close>. When \<open>n\<close> has an
  incident edge it is one of its own neighbours, and then
  \<open>highlighted = {n} \<union> incidentEdges(n) \<union> neighbors(n)\<close> and
  \<open>faded = allElements - highlighted\<close>; when it has none, nothing is highlighted and
  \<open>n\<close> itself is neither highlighted nor faded.
\<close>

theorem tap_node_selects:
  assumes "interactive p" and "cyRef s = Some cy" and "is_target cy (OnNode d)"
  shows "selectedNodeId (step p (Tap (OnNode d)) s) = Some (nid d) \<and>
         highlighted (step p (Tap (OnNode d)) s) =
           incidentEdges s (Given (nid d)) \<union> neighbors s (Given (nid d)) \<and>
         faded (step p (Tap (OnNode d)) s) =
           allElements s - ({Given (nid d)} \<union> incidentEdges s (Given (nid d)) \<union> neighbors s (Given (nid d))) \<and>
         (incidentEdges s (Given (nid d)) \<noteq> {} \<longrightarrow>
            highlighted (step p (Tap (OnNode d)) s) =
              {Given (nid d)} \<union> incidentEdges s (Given (nid d)) \<union> neighbors s (Given (nid d)) \<and>
            faded (step p (Tap (OnNode d)) s) = allElements s - highlighted (step p (Tap (OnNode d)) s)) \<and>
         (incidentEdges s (Given (nid d)) = {} \<longrightarrow>
            highlighted (step p (Tap (OnNode d)) s) = {} \<and>
            faded (step p (Tap (OnNode d)) s) = allElements s - {Given (nid d)})"
proof -
  let ?n = "Given (nid d)"
  have st: "step p (Tap (OnNode d)) s = on_tap_node p d s"
    using assms by (simp add: step_tap_node del: step.simps)
  have sel: "selectedNodeId (on_tap_node p d s) = Some (nid d)"
    using assms(2) by (simp add: selectedNodeId_def selectedNode_on_tap_node)
  obtain v where v: "v \<in> set (elements cy)" "body v = NodeBody d" "ident v = ?n"
    using assms(3) by (auto simp: is_target_def)
  have els: "instance_elements s = elements cy"
    using assms(2) by (simp add: instance_elements_def)
  have self: "?n \<in> neighbors s ?n" if "incidentEdges s ?n \<noteq> {}"
  proof -
    from that obtain e where "e \<in> set (elements cy)" "touches e ?n"
      by (auto simp: incidentEdges_def incident_def els)
    with v show ?thesis
      by (auto simp: neighbors_def adjacent_def els is_node_def)
  qed
  have none: "neighbors s ?n = {}" if "incidentEdges s ?n = {}"
    using that by (auto simp: neighbors_def adjacent_def incidentEdges_def incident_def)
  show ?thesis
    unfolding st
    using self none by (auto simp: sel highlighted_on_tap_node faded_on_tap_node)
qed

text \<open>C1, at the node \<open>B\<close> of the concrete graph.\<close>

theorem tap_node_selects_witness:
  "interactive props0 \<and> cyRef state0 = Some core0 \<and> is_target core0 (OnNode nodeB) \<and>
   selectedNodeId (step props0 (Tap (OnNode nodeB)) state0) = Some ''B'' \<and>
   highlighted (step props0 (Tap (OnNode nodeB)) state0) =
     {Given ''A'', Given ''B'', Given ''C'', Given ''AB'', Given ''BC''} \<and>
   faded (step props0 (Tap (OnNode nodeB)) state0) = {Given ''D''}"
  using tap_node_selects [OF interactive_props0 cyRef_state0 is_target_core0_B]
    interactive_props0 cyRef_state0 is_target_core0_B
  by (auto simp: incident_state0_B neighbors_state0_B allElements_state0 simp del: step.simps)

text \<open>
  C1 as stated fails at the node \<open>D\<close>, which has no edge: after the tap nothing is
  highlighted, so \<open>highlighted\<close> is not \<open>{D} \<union> incidentEdges(D) \<union> neighbors(D)\<close>, and
  \<open>faded\<close> is not \<open>allElements - highlighted\<close>.
\<close>

theorem isolated_node_not_highlighted:
  "highlighted (step props0 (Tap (OnNode nodeD)) state0) = {} \<and>
   highlighted (step props0 (Tap (OnNode nodeD)) state0) \<noteq>
     {Given (nid nodeD)} \<union> incidentEdges state0 (Given (nid nodeD)) \<union> neighbors state0 (Given (nid nodeD)) \<and>
   faded (step props0 (Tap (OnNode nodeD)) state0) \<noteq>
     allElements state0 - highlighted (step props0 (Tap (OnNode nodeD)) state0)"
  by (simp add: step_tap_D highlighted_on_tap_node faded_on_tap_node incident_state0_D
      neighbors_state0_D allElements_state0 del: step.simps) auto

text \<open>
  C4. Tapping a node and then the same node again leaves the RenderState that one tap
  leaves: the second tap is not a toggle. Where the tap is delivered (the component is
  interactive and the node is in the graph) the node stays selected, and the instance
  with all its classes is the same as after one tap.
\<close>

theorem tap_same_node_again:
  "renderState (step p (Tap (OnNode d)) (step p (Tap (OnNode d)) s)) =
     renderState (step p (Tap (OnNode d)) s) \<and>
   (interactive p \<and> cyRef s = Some cy \<and> is_target cy (OnNode d) \<longrightarrow>
      selectedNodeId (step p (Tap (OnNode d)) (step p (Tap (OnNode d)) s)) = Some (nid d) \<and>
      cyRef (step p (Tap (OnNode d)) (step p (Tap (OnNode d)) s)) = cyRef (step p (Tap (OnNode d)) s))"
proof -
  have twice: "on_tap_node p d (on_tap_node p d s) =
      (on_tap_node p d s)\<lparr>clicks := clicks (on_tap_node p d (on_tap_node p d s))\<rparr>"
    by (rule on_tap_node_twice)
  have rs: "renderState (on_tap_node p d (on_tap_node p d s)) = renderState (on_tap_node p d s)"
    by (subst twice) simp
  have cy: "cyRef (on_tap_node p d (on_tap_node p d s)) = cyRef (on_tap_node p d s)"
    by (subst twice) simp
  have sel: "selectedNodeId (on_tap_node p d (on_tap_node p d s)) = Some (nid d)" if "cyRef s = Some cy"
    using that by (simp add: selectedNodeId_def selectedNode_on_tap_node)
  show ?thesis
  proof (cases "interactive p \<and> (\<exists>c. cyRef s = Some c \<and> is_target c (OnNode d))")
    case True
    then have two: "step p (Tap (OnNode d)) (step p (Tap (OnNode d)) s) = on_tap_node p d (on_tap_node p d s)"
      by (simp add: step_tap_node_twice del: step.simps)
    from True have one: "step p (Tap (OnNode d)) s = on_tap_node p d s"
      by (simp add: step_tap_node del: step.simps)
    from two have two': "step p (Tap (OnNode d)) (on_tap_node p d s) = on_tap_node p d (on_tap_node p d s)"
      unfolding one .
    show ?thesis
      unfolding one two' using rs cy sel by simp
  next
    case False
    then have two: "step p (Tap (OnNode d)) (step p (Tap (OnNode d)) s) = s"
      by (auto simp: step_tap_node_twice simp del: step.simps)
    from False have one: "step p (Tap (OnNode d)) s = s"
      by (auto simp: step_tap_node simp del: step.simps)
    show ?thesis
      unfolding one using False by auto
  qed
qed

text \<open>C4, at the node \<open>B\<close> of the concrete graph.\<close>

theorem tap_same_node_again_witness:
  "interactive props0 \<and> cyRef state0 = Some core0 \<and> is_target core0 (OnNode nodeB) \<and>
   renderState (step props0 (Tap (OnNode nodeB)) (step props0 (Tap (OnNode nodeB)) state0)) =
     (Some ''B'', {Given ''A'', Given ''B'', Given ''C'', Given ''AB'', Given ''BC''}, {Given ''D''}) \<and>
   selectedNodeId (step props0 (Tap (OnNode nodeB)) (step props0 (Tap (OnNode nodeB)) state0)) = Some ''B''"
proof -
  have once: "renderState (step props0 (Tap (OnNode nodeB)) state0) =
      (Some ''B'', {Given ''A'', Given ''B'', Given ''C'', Given ''AB'', Given ''BC''}, {Given ''D''})"
    unfolding step_tap_B renderState_def
    by (auto simp: highlighted_on_tap_node faded_on_tap_node incident_state0_B neighbors_state0_B
        allElements_state0 selectedNodeId_def selectedNode_on_tap_node cyRef_state0)
  show ?thesis
    using tap_same_node_again [of props0 nodeB state0 core0] once
      interactive_props0 cyRef_state0 is_target_core0_B
    by (simp del: step.simps)
qed

text \<open>
  C5. For every graph and every node \<open>n\<close> in it, tapping \<open>n\<close> and then the background
  leaves the Idle value: nothing highlighted, nothing faded, no node selected.
\<close>

theorem select_then_background:
  assumes "interactive p" and "cyRef s = Some cy" and "is_target cy (OnNode d)"
  shows "selectedNodeId (step p (Tap (OnNode d)) s) = Some (nid d) \<and>
         renderState (step p (Tap OnCore) (step p (Tap (OnNode d)) s)) = Idle \<and>
         highlighted (step p (Tap OnCore) (step p (Tap (OnNode d)) s)) = {} \<and>
         faded (step p (Tap OnCore) (step p (Tap (OnNode d)) s)) = {} \<and>
         selectedNodeId (step p (Tap OnCore) (step p (Tap (OnNode d)) s)) = None"
proof -
  have st: "step p (Tap (OnNode d)) s = on_tap_node p d s"
    using assms by (simp add: step_tap_node del: step.simps)
  have sel: "selectedNodeId (on_tap_node p d s) = Some (nid d)"
    using assms(2) by (simp add: selectedNodeId_def selectedNode_on_tap_node)
  have bg: "step p (Tap OnCore) (on_tap_node p d s) = on_tap OnCore (on_tap_node p d s)"
    using assms(1) by (simp add: step_tap_core del: step.simps)
  have "renderState (on_tap OnCore (on_tap_node p d s)) = Idle"
    using assms(2) by (simp add: renderState_on_tap_core)
  then show ?thesis
    unfolding st bg using sel by (simp add: renderState_def Idle_def)
qed

text \<open>C5, at the node \<open>B\<close> of the concrete graph.\<close>

theorem select_then_background_witness:
  "interactive props0 \<and> cyRef state0 = Some core0 \<and> is_target core0 (OnNode nodeB) \<and>
   selectedNodeId (step props0 (Tap (OnNode nodeB)) state0) = Some ''B'' \<and>
   renderState (step props0 (Tap OnCore) (step props0 (Tap (OnNode nodeB)) state0)) = (None, {}, {})"
  using select_then_background [OF interactive_props0 cyRef_state0 is_target_core0_B]
    interactive_props0 cyRef_state0 is_target_core0_B
  by (simp add: Idle_def del: step.simps)

text \<open>
  C6 (as amended). On every transition from a selection to Idle (a tap on the
  background of an interactive graph) the highlighted and the faded marks are removed
  and no node is selected any more; the component makes no call to its listener: the
  record of the calls to \<^verbatim>\<open>onNodeClick\<close>, its only callback, is unchanged.
\<close>

theorem background_tap_is_silent:
  assumes "interactive p" and "cyRef s = Some cy"
  shows "renderState (step p (Tap OnCore) s) = Idle \<and> clicks (step p (Tap OnCore) s) = clicks s"
  using assms by (simp add: step_tap_core renderState_on_tap_core del: step.simps)

text \<open>C6 as amended, after the node \<open>B\<close> of the concrete graph was selected.\<close>

theorem background_tap_is_silent_witness:
  "interactive props0 \<and>
   cyRef (step props0 (Tap (OnNode nodeB)) state0) =
     Some (core0\<lparr>elements := tap_elements (Given ''B'') (elements core0)\<rparr>) \<and>
   renderState (step props0 (Tap OnCore) (step props0 (Tap (OnNode nodeB)) state0)) = (None, {}, {}) \<and>
   clicks (step props0 (Tap OnCore) (step props0 (Tap (OnNode nodeB)) state0)) = [(''B'', nodeB)]"
  using background_tap_is_silent [OF interactive_props0 cyRef_tap_B] interactive_props0
    cyRef_tap_B clicks_tap_B
  by (simp add: Idle_def del: step.simps)

text \<open>
  C6 as stated fails on the concrete graph, whose listener is supplied: the tap on \<open>B\<close>
  calls it once, the tap on the background that follows clears the selection and calls
  nothing.
\<close>

theorem no_selection_cleared_notification:
  "onNodeClick props0 \<and>
   selectedNodeId (step props0 (Tap (OnNode nodeB)) state0) = Some ''B'' \<and>
   selectedNodeId (step props0 (Tap OnCore) (step props0 (Tap (OnNode nodeB)) state0)) = None \<and>
   clicks (step props0 (Tap (OnNode nodeB)) state0) = [(''B'', nodeB)] \<and>
   clicks (step props0 (Tap OnCore) (step props0 (Tap (OnNode nodeB)) state0)) = [(''B'', nodeB)]"
proof -
  have "step props0 (Tap OnCore) (step props0 (Tap (OnNode nodeB)) state0) =
      on_tap OnCore (on_tap_node props0 nodeB state0)"
    using interactive_props0 by (simp add: step_tap_core step_tap_B del: step.simps)
  moreover have "selectedNodeId (on_tap OnCore (on_tap_node props0 nodeB state0)) = None"
    by (simp add: selectedNodeId_def selectedNode_on_tap cyRef_state0)
  moreover have "clicks (on_tap OnCore (on_tap_node props0 nodeB state0)) = [(''B'', nodeB)]"
    using clicks_tap_B by (simp add: step_tap_B del: step.simps)
  ultimately show ?thesis
    using clicks_tap_B selected_tap_B by (simp add: props0_def del: step.simps)
qed




text \<open>
  C10. On a live instance the reset returns RenderState to Idle, removes both marks
  from every element and starts a layout run (\<open>reset_live_instance\<close>). The claim says
  always, and the code falls short of it after the node list became empty: the node
  \<open>B\<close> of the concrete graph is selected, the props change to an empty node list, and
  the Reset button is clicked. The instance was destroyed by the cleanup, the handler's
  guard lets it through, the call into it throws before \<^verbatim>\<open>setSelectedNode(null)\<close>:
  \<open>B\<close> stays selected, its tooltip stays on the screen, and RenderState is not Idle.
\<close>

theorem reset_on_destroyed_instance:
  "mount props0 (Some (800, 600)) layout0 = Inr state0 \<and>
   selectedB = step props0 (Tap (OnNode nodeB)) state0 \<and>
   useEffect emptyProps layout0 selectedB = Inr staleB \<and>
   handleReset layout0 staleB = Inl TypeError \<and>
   step emptyProps (ClickReset layout0) staleB = staleB \<and>
   selectedNodeId (step emptyProps (ClickReset layout0) staleB) = Some ''B'' \<and>
   renderState (step emptyProps (ClickReset layout0) staleB) \<noteq> Idle \<and>
   tooltip_shown (render emptyProps (step emptyProps (ClickReset layout0) staleB))"
proof -
  have eff: "useEffect emptyProps layout0 selectedB = Inr staleB"
    by (simp add: useEffect_empty nodes_emptyProps staleB_def)
  have sel: "selectedNodeId staleB = Some ''B''"
    by (simp add: selectedNodeId_def selectedNode_staleB)
  then have "renderState staleB \<noteq> Idle"
    by (simp add: renderState_def Idle_def)
  with eff sel show ?thesis
    by (simp add: mount_props0 selectedB_def handleReset_staleB click_reset_staleB render_def
        selectedNode_staleB del: step.simps)
qed

text \<open>
  C7. After the component is mounted, any finite sequence of zoomIn, zoomOut (and
  fitToBounds) operations runs to its end without an exception and leaves the zoom
  factor within \<open>[0.3, 3.0]\<close>, bounds included. From such a factor \<open>z\<close>, zoomIn
  gives \<open>1.2 z\<close> cropped at \<open>3\<close> and zoomOut gives \<open>0.8 z\<close> cropped at \<open>0.3\<close>: a step
  over the range stops at the bound and does not fail.
\<close>

theorem zoom_stays_in_range:
  assumes "mount p c r = Inr s"
  shows "\<exists>s'. apply_ops ops s = Inr s' \<and>
           (\<forall>z. zoomFactor s' = Some z \<longrightarrow>
              0.3 \<le> z \<and> z \<le> 3 \<and>
              map_sum id zoomFactor (handleZoomIn s') = Inr (Some (min 3 (z * 1.2))) \<and>
              map_sum id zoomFactor (handleZoomOut s') = Inr (Some (max 0.3 (z * 0.8))))"
proof -
  have "zoom_bounded s"
    using assms by (rule zoom_bounded_mount)
  from zoom_bounded_apply_ops [OF this, of ops]
  obtain s' where s': "apply_ops ops s = Inr s'" "zoom_bounded s'"
    by blast
  have "0.3 \<le> z \<and> z \<le> 3 \<and>
      map_sum id zoomFactor (handleZoomIn s') = Inr (Some (min 3 (z * 1.2))) \<and>
      map_sum id zoomFactor (handleZoomOut s') = Inr (Some (max 0.3 (z * 0.8)))"
    if z: "zoomFactor s' = Some z" for z
  proof -
    from z obtain cy where cy: "cyRef s' = Some cy" "zoom cy = z"
      by (auto simp: zoomFactor_def)
    with s'(2) have "0.3 \<le> z" "z \<le> 3"
      by (simp_all add: zoom_bounded_def)
    moreover from zoomIn_bounded [OF s'(2) z]
    have "map_sum id zoomFactor (handleZoomIn s') = Inr (Some (min 3 (z * 1.2)))"
      by auto
    moreover from zoomOut_bounded [OF s'(2) z]
    have "map_sum id zoomFactor (handleZoomOut s') = Inr (Some (max 0.3 (z * 0.8)))"
      by auto
    ultimately show ?thesis
      by simp
  qed
  with s'(1) show ?thesis
    by blast
qed

text \<open>
  C7, on the concrete graph: seven zoomIn steps from factor 1 reach the bound 3, an
  eighth stays there, and a zoomOut from there gives 2.4.
\<close>

theorem zoom_stays_in_range_witness:
  "mount props0 (Some (800, 600)) layout0 = Inr state0 \<and>
   map_sum id zoomFactor (apply_ops zoomIn7 state0) = Inr (Some 3) \<and>
   map_sum id zoomFactor (and_then (apply_ops zoomIn7 state0) handleZoomIn) = Inr (Some 3) \<and>
   map_sum id zoomFactor (and_then (apply_ops zoomIn7 state0) handleZoomOut) = Inr (Some (12 / 5))"
proof -
  from zoom_stays_in_range [OF mount_props0, of zoomIn7]
  obtain s' where s': "apply_ops zoomIn7 state0 = Inr s'"
    and r: "\<forall>z. zoomFactor s' = Some z \<longrightarrow>
              0.3 \<le> z \<and> z \<le> 3 \<and>
              map_sum id zoomFactor (handleZoomIn s') = Inr (Some (min 3 (z * 1.2))) \<and>
              map_sum id zoomFactor (handleZoomOut s') = Inr (Some (max 0.3 (z * 0.8)))"
    by blast
  from s' zoomFactor_zoomIn7 have z: "zoomFactor s' = Some 3"
    by simp
  with r have "map_sum id zoomFactor (handleZoomIn s') = Inr (Some (min 3 (3 * 1.2)))"
    "map_sum id zoomFactor (handleZoomOut s') = Inr (Some (max 0.3 (3 * 0.8)))"
    by blast+
  with s' z show ?thesis
    by (simp add: mount_props0 and_then_def)
qed

text \<open>
  C8 (as amended). fitToBounds is idempotent. zoomIn and zoomOut are not: applied
  twice to a live instance they leave the viewport of one application exactly when
  that application already stops at the bound (zoomIn when \<open>1.2 z \<ge> 3\<close>, zoomOut when
  \<open>0.8 z \<le> 0.3\<close>); on a destroyed instance one and two applications throw alike.
  None of the three operations changes the RenderState, whether its handler returns
  or throws, and what zoomIn and zoomOut produce is the same whether or not a node tap
  or a background tap came before.
\<close>

theorem viewport_ops_and_selection:
  "and_then (handleFit s) handleFit = handleFit s \<and>
   (\<forall>t. handleZoomIn s = Inr t \<longrightarrow> renderState t = renderState s) \<and>
   (\<forall>t. handleZoomOut s = Inr t \<longrightarrow> renderState t = renderState s) \<and>
   (\<forall>t. handleFit s = Inr t \<longrightarrow> renderState t = renderState s) \<and>
   renderState (step p ClickZoomIn s) = renderState s \<and>
   renderState (step p ClickZoomOut s) = renderState s \<and>
   renderState (step p ClickFit s) = renderState s \<and>
   map_sum id zoomFactor (handleZoomIn (on_tap_node p d s)) = map_sum id zoomFactor (handleZoomIn s) \<and>
   map_sum id zoomFactor (handleZoomOut (on_tap_node p d s)) = map_sum id zoomFactor (handleZoomOut s) \<and>
   map_sum id zoomFactor (handleZoomIn (on_tap t s)) = map_sum id zoomFactor (handleZoomIn s) \<and>
   map_sum id zoomFactor (handleZoomOut (on_tap t s)) = map_sum id zoomFactor (handleZoomOut s) \<and>
   (cyRef s = Some cy \<and> minZoom cy = 0.3 \<and> maxZoom cy = 3 \<and> 0.3 \<le> zoom cy \<and> zoom cy \<le> 3 \<longrightarrow>
      (map_sum id viewport (and_then (handleZoomIn s) handleZoomIn) =
         map_sum id viewport (handleZoomIn s) \<longleftrightarrow> destroyed cy \<or> 3 \<le> zoom cy * 1.2) \<and>
      (map_sum id viewport (and_then (handleZoomOut s) handleZoomOut) =
         map_sum id viewport (handleZoomOut s) \<longleftrightarrow> destroyed cy \<or> zoom cy * 0.8 \<le> 0.3))"
proof -
  have twice: "(map_sum id viewport (and_then (handleZoomIn s) handleZoomIn) =
         map_sum id viewport (handleZoomIn s) \<longleftrightarrow> destroyed cy \<or> 3 \<le> zoom cy * 1.2) \<and>
      (map_sum id viewport (and_then (handleZoomOut s) handleZoomOut) =
         map_sum id viewport (handleZoomOut s) \<longleftrightarrow> destroyed cy \<or> zoom cy * 0.8 \<le> 0.3)"
    if "cyRef s = Some cy" "minZoom cy = 0.3" "maxZoom cy = 3" "0.3 \<le> zoom cy" "zoom cy \<le> 3"
    using zoomIn_twice [OF that] zoomOut_twice [OF that] by (rule conjI)
  have returns: "\<forall>t. handleZoomIn s = Inr t \<longrightarrow> renderState t = renderState s"
    "\<forall>t. handleZoomOut s = Inr t \<longrightarrow> renderState t = renderState s"
    "\<forall>t. handleFit s = Inr t \<longrightarrow> renderState t = renderState s"
    using renderState_handleZoomIn renderState_handleZoomOut renderState_handleFit by blast+
  show ?thesis
    using twice returns
    by (simp only: handleFit_twice renderState_click_zoomIn renderState_click_zoomOut
        renderState_click_fit zoomIn_after_tap_node zoomOut_after_tap_node zoomIn_after_tap
        zoomOut_after_tap simp_thms) blast
qed

text \<open>C8 as amended, on the concrete graph at zoom factor 1.\<close>

theorem viewport_ops_and_selection_witness:
  "cyRef state0 = Some core0 \<and> minZoom core0 = 0.3 \<and> maxZoom core0 = 3 \<and>
   0.3 \<le> zoom core0 \<and> zoom core0 \<le> 3 \<and> \<not> destroyed core0 \<and>
   and_then (handleFit state0) handleFit = handleFit state0 \<and>
   renderState (step props0 ClickZoomIn state0) = renderState state0 \<and>
   map_sum id zoomFactor (handleZoomIn (on_tap_node props0 nodeB state0)) =
     map_sum id zoomFactor (handleZoomIn state0) \<and>
   map_sum id viewport (and_then (handleZoomIn state0) handleZoomIn) \<noteq>
     map_sum id viewport (handleZoomIn state0) \<and>
   map_sum id viewport (and_then (handleZoomOut state0) handleZoomOut) \<noteq>
     map_sum id viewport (handleZoomOut state0)"
proof -
  have b: "minZoom core0 = 0.3" "maxZoom core0 = 3" "0.3 \<le> zoom core0" "zoom core0 \<le> 3"
    "\<not> 3 \<le> zoom core0 * 1.2" "\<not> zoom core0 * 0.8 \<le> 0.3" "\<not> destroyed core0"
    by (simp_all add: core0_def)
  show ?thesis
    using viewport_ops_and_selection [of state0 props0 nodeB OnCore core0] cyRef_state0 b
    by (simp del: step.simps)
qed

text \<open>
  C8 as stated fails on the concrete graph: one zoomIn from factor 1 gives factor 1.2,
  two give 1.44, with different pans.
\<close>

theorem zoomIn_not_idempotent:
  "map_sum id viewport (handleZoomIn state0) = Inr (Some (6 / 5, 160, 120)) \<and>
   map_sum id viewport (and_then (handleZoomIn state0) handleZoomIn) = Inr (Some (36 / 25, 112, 84)) \<and>
   map_sum id viewport (and_then (handleZoomIn state0) handleZoomIn) \<noteq>
     map_sum id viewport (handleZoomIn state0)"
  by (simp add: viewport_zoomIn_state0 viewport_zoomIn2_state0)

text \<open>
  C9. A component mounted with an empty node list creates no instance, starts no
  layout run, renders the empty state, and its handlers return the state as it is
  (\<open>empty_graph_mounted\<close>). The claim speaks of every render with an empty node list,
  and the code falls short of it when the list becomes empty after a graph was shown:
  the concrete graph is mounted, the props change to an empty node list, and a
  viewport button is clicked. The effect's cleanup destroyed the instance, the new run
  of the effect returns at its guard, and \<^verbatim>\<open>cyRef.current\<close>, assigned in line 201
  only, still holds the destroyed instance: the empty state is rendered, the guard
  \<^verbatim>\<open>if (cyRef.current)\<close> lets every handler through, and each of them throws.
\<close>

theorem empty_rerender_keeps_instance:
  "mount props0 (Some (800, 600)) layout0 = Inr state0 \<and>
   nodes emptyProps = [] \<and>
   useEffect emptyProps layout0 state0 = Inr stale0 \<and>
   layoutRuns stale0 = layoutRuns state0 \<and>
   empty_state_shown (render emptyProps stale0) \<and>
   cyRef stale0 = Some (core0\<lparr>destroyed := True\<rparr>) \<and>
   handleZoomIn stale0 = Inl TypeError \<and>
   handleZoomOut stale0 = Inl TypeError \<and>
   handleFit stale0 = Inl TypeError \<and>
   handleReset layout0 stale0 = Inl TypeError \<and>
   apply_ops [ZoomIn] stale0 = Inl TypeError"
  by (simp add: mount_props0 nodes_emptyProps useEffect_empty cleanup_state0 render_def
      cyRef_stale0 handlers_stale0 and_then_def)
     (simp add: stale0_def)




end
